theory Spec2Isabelle
  imports Complex_Main
begin

section \<open>Geometry objects of manim: a shallow embedding of \<^verbatim>\<open>manim/mobject/geometry.py\<close>\<close>

text \<open>
  The module builds paths of cubic Bezier curves: arcs, lines with tips, polygons,
  tilings and graphs. Python floats are modelled by the reals (exact arithmetic), with
  \<^verbatim>\<open>math.inf\<close> and the infinities of numpy's division as extra values; points of
  space are triples of reals; a path is the list of its control points; Python
  exceptions are values of the type \<open>error\<close>, returned on the left of a sum.
\<close>

subsection \<open>Points, vectors and errors\<close>

type_synonym point = "real \<times> real \<times> real"

fun vadd :: "point \<Rightarrow> point \<Rightarrow> point" where
  "vadd (a, b, c) (d, e, f) = (a + d, b + e, c + f)"

fun vsub :: "point \<Rightarrow> point \<Rightarrow> point" where
  "vsub (a, b, c) (d, e, f) = (a - d, b - e, c - f)"

fun smul :: "real \<Rightarrow> point \<Rightarrow> point" where
  "smul k (a, b, c) = (k * a, k * b, k * c)"

definition ORIGIN :: point where "ORIGIN = (0, 0, 0)"
definition LEFT :: point where "LEFT = (- 1, 0, 0)"
definition RIGHT :: point where "RIGHT = (1, 0, 0)"
definition UP :: point where "UP = (0, 1, 0)"
definition DOWN :: point where "DOWN = (0, - 1, 0)"
definition UL :: point where "UL = vadd UP LEFT"
definition UR :: point where "UR = vadd UP RIGHT"
definition DR :: point where "DR = vadd DOWN RIGHT"
definition DL :: point where "DL = vadd DOWN LEFT"
definition TAU :: real where "TAU = 2 * pi"

text \<open>\<^verbatim>\<open>get_norm\<close> and \<^verbatim>\<open>np.linalg.norm\<close>: the Euclidean length.\<close>

fun get_norm :: "point \<Rightarrow> real" where
  "get_norm (a, b, c) = sqrt (a\<^sup>2 + b\<^sup>2 + c\<^sup>2)"

text \<open>
  The exceptions the module raises or lets through. \<open>InvalidRadius\<close> is the
  \<^verbatim>\<open>ValueError\<close> of \<^verbatim>\<open>ArcBetweenPoints\<close>, \<open>TipNotFound\<close> the
  \<^verbatim>\<open>Exception("tip not found")\<close>, \<open>InvalidGraphKeys\<close> and \<open>InvalidEdgeDefinition\<close>
  the two \<^verbatim>\<open>ValueError\<close>s of \<^verbatim>\<open>EdgeVertexGraph\<close>, \<open>UnpackError\<close> the
  \<^verbatim>\<open>ValueError\<close> of a tuple assignment from too few values, \<open>NoPoints\<close> the exception
  of reading the start or end of a path without points, \<open>OverflowError\<close> that of
  \<^verbatim>\<open>len\<close> on a range too long for a machine index, and \<open>ValueError\<close> that of a range
  with step zero.
\<close>

datatype error =
    InvalidRadius
  | TipNotFound
  | InvalidGraphKeys
  | InvalidEdgeDefinition
  | ZeroDivisionError
  | IndexError
  | KeyError
  | TypeError
  | UnpackError
  | NoPoints
  | OverflowError
  | ValueError

text \<open>
  A float that need not be finite: \<^verbatim>\<open>math.inf\<close>, and what the division of numpy
  floats returns for a zero divisor (with a warning, not an exception).
\<close>

datatype pyfloat = Fin real | PInf | NInf | NaN

definition np_div :: "real \<Rightarrow> real \<Rightarrow> pyfloat" where
  "np_div x y =
     (if y = 0 then (if 0 < x then PInf else if x < 0 then NInf else NaN)
      else Fin (x / y))"

text \<open>\<^verbatim>\<open>1 - x\<close> for such a float.\<close>

fun one_minus :: "pyfloat \<Rightarrow> pyfloat" where
  "one_minus (Fin x) = Fin (1 - x)"
| "one_minus PInf = NInf"
| "one_minus NInf = PInf"
| "one_minus NaN = NaN"

text \<open>
  Subscripting a Python list with an integer: \<^verbatim>\<open>xs[i]\<close> reads from the front for
  \<open>0 \<le> i\<close>, from the back for \<open>- len(xs) \<le> i < 0\<close>, and raises otherwise.
\<close>

definition py_index :: "'a list \<Rightarrow> int \<Rightarrow> error + 'a" where
  "py_index xs i =
     (if 0 \<le> i \<and> i < int (length xs) then Inr (xs ! nat i)
      else if i < 0 \<and> - int (length xs) \<le> i then Inr (xs ! nat (int (length xs) + i))
      else Inl IndexError)"

text \<open>A \<^verbatim>\<open>for\<close> loop over a list that stops at the first exception.\<close>

primrec for_each :: "('a \<Rightarrow> 's \<Rightarrow> error + 's) \<Rightarrow> 'a list \<Rightarrow> 's \<Rightarrow> error + 's" where
  "for_each body [] s = Inr s"
| "for_each body (x # xs) s =
     (case body x s of Inl e \<Rightarrow> Inl e | Inr s' \<Rightarrow> for_each body xs s')"

text \<open>
  Modelled from the spec: \<^verbatim>\<open>Mobject.shift\<close> is not part of this module; the spec lists
  it among the affine operations of the path collaborator (``translate''). It adds the
  vector to every point.
\<close>

definition shift :: "point list \<Rightarrow> point \<Rightarrow> point list" where
  "shift pts v = map (\<lambda>p. vadd p v) pts"

subsection \<open>The path collaborator\<close>

text \<open>
  The module is a layer over \<^verbatim>\<open>Mobject\<close>, \<^verbatim>\<open>VMobject\<close> and \<^verbatim>\<open>space_ops\<close>,
  which are not part of it. The operations whose result depends on their geometry are
  parameters of the model, collected in one record: the angle of a vector, the
  normalised vector, the angle between two vectors, the rotation of a path about its
  centre, the point at a proportion of a path, \<^verbatim>\<open>Mobject.put_start_and_end_on\<close>, the
  points of a new \<^verbatim>\<open>ArrowTip\<close> of a given length, the arc length of a path, and the
  partial path between two proportions. They are total functions: the model does not
  follow exceptions raised inside them.
\<close>

record collab =
  ext_angle_of_vector :: "point \<Rightarrow> real"
  ext_normalize :: "point \<Rightarrow> point"
  ext_angle_between_vectors :: "point \<Rightarrow> point \<Rightarrow> real"
  ext_rotate :: "point list \<Rightarrow> real \<Rightarrow> point list"
  ext_point_from_proportion :: "point list \<Rightarrow> real \<Rightarrow> point"
  ext_put_start_and_end_on :: "point list \<Rightarrow> point \<Rightarrow> point \<Rightarrow> point list"
  ext_ArrowTip :: "real \<Rightarrow> point list"
  ext_get_arc_length :: "point list \<Rightarrow> real"
  ext_pointwise_become_partial :: "point list \<Rightarrow> pyfloat \<Rightarrow> pyfloat \<Rightarrow> point list"

text \<open>
  To run the model on concrete objects, the examples below use a collaborator whose
  operations leave the geometry where it is: paths are not rotated, moved or trimmed, a
  new tip is a two-point path, and every measured angle and arc length is zero. The one
  exception is \<^verbatim>\<open>put_start_and_end_on\<close> with a start equal to the end, which scales the
  path by zero: all its points become that point. The statements proved with it are
  about attributes, children and the arguments of calls, which do not depend on that
  choice, or use it only where it agrees with the operation it stands for.
\<close>

definition example_collab :: collab where
  "example_collab =
     \<lparr>ext_angle_of_vector = (\<lambda>v. 0),
      ext_normalize = (\<lambda>v. v),
      ext_angle_between_vectors = (\<lambda>v w. 0),
      ext_rotate = (\<lambda>pts a. pts),
      ext_point_from_proportion = (\<lambda>pts a. ORIGIN),
      ext_put_start_and_end_on = (\<lambda>pts s e. if s = e then map (\<lambda>p. s) pts else pts),
      ext_ArrowTip = (\<lambda>l. [ORIGIN, (- l, 0, 0)]),
      ext_get_arc_length = (\<lambda>pts. 0),
      ext_pointwise_become_partial = (\<lambda>pts a b. pts)\<rparr>"

text \<open>
  Modelled from the spec: \<^verbatim>\<open>VMobject.get_start\<close> and \<^verbatim>\<open>VMobject.get_end\<close> are not part
  of this module; the spec lists ``get first/last anchor'' among the collaborator's
  capabilities. A path without points has neither.
\<close>

definition VMobject_get_start :: "point list \<Rightarrow> error + point" where
  "VMobject_get_start pts = (case pts of [] \<Rightarrow> Inl NoPoints | p # ps \<Rightarrow> Inr p)"

definition VMobject_get_end :: "point list \<Rightarrow> error + point" where
  "VMobject_get_end pts = (case rev pts of [] \<Rightarrow> Inl NoPoints | p # ps \<Rightarrow> Inr p)"

text \<open>
  Modelled from the spec: \<^verbatim>\<open>Mobject.scale\<close> about the origin is not part of this
  module; the spec says the arc is scaled by the radius and then translated to the
  centre. It multiplies every point by the factor.
\<close>

definition scale_about_origin :: "point list \<Rightarrow> real \<Rightarrow> point list" where
  "scale_about_origin pts k = map (smul k) pts"

text \<open>
  Modelled from the spec: \<^verbatim>\<open>VMobject.set_anchors_and_handles\<close> is not part of this
  module; the spec says a path is an ordered sequence of control-point quadruples
  (anchor, handle, handle, anchor). The four lists are interleaved, one quadruple per
  cubic curve.
\<close>

fun set_anchors_and_handles ::
  "point list \<Rightarrow> point list \<Rightarrow> point list \<Rightarrow> point list \<Rightarrow> point list" where
  "set_anchors_and_handles (a # as) (h # hs) (k # ks) (b # bs) =
     a # h # k # b # set_anchors_and_handles as hs ks bs"
| "set_anchors_and_handles as hs ks bs = []"

text \<open>
  Modelled from the spec: \<^verbatim>\<open>VMobject.set_points_as_corners\<close> is not part of this
  module; the spec says a polygon is a straight path through its vertices and that a
  zero-angle arc is a straight two-point path. Each pair of successive corners gives one
  cubic curve whose handles lie on the segment, at one and two thirds.
\<close>

definition interpolate :: "point \<Rightarrow> point \<Rightarrow> real \<Rightarrow> point" where
  "interpolate a b t = vadd (smul (1 - t) a) (smul t b)"

definition set_points_as_corners :: "point list \<Rightarrow> point list" where
  "set_points_as_corners corners =
     set_anchors_and_handles
       (butlast corners)
       (map (\<lambda>(a, b). interpolate a b (1 / 3)) (zip (butlast corners) (tl corners)))
       (map (\<lambda>(a, b). interpolate a b (2 / 3)) (zip (butlast corners) (tl corners)))
       (tl corners)"

text \<open>
  Modelled from the spec: \<^verbatim>\<open>rotate_vector\<close> and \<^verbatim>\<open>line_intersection\<close> of
  \<^verbatim>\<open>space_ops\<close> are not part of this module; the spec says the tangents at the first
  two anchors are rotated by a quarter turn and the two normal lines intersected, which
  fails when the lines are parallel or degenerate. The rotation is about the axis out
  of the plane; the intersection is that of two lines of the plane, each given by two
  of its points, and \<open>None\<close> stands for the exception.
\<close>

fun rotate_vector :: "point \<Rightarrow> real \<Rightarrow> point" where
  "rotate_vector (x, y, z) a = (cos a * x - sin a * y, sin a * x + cos a * y, z)"

definition det2 :: "real \<times> real \<Rightarrow> real \<times> real \<Rightarrow> real" where
  "det2 a b = fst a * snd b - snd a * fst b"

fun xy :: "point \<Rightarrow> real \<times> real" where
  "xy (x, y, z) = (x, y)"

definition line_intersection :: "point \<times> point \<Rightarrow> point \<times> point \<Rightarrow> point option" where
  "line_intersection line1 line2 =
     (let p1 = xy (fst line1); q1 = xy (snd line1); p2 = xy (fst line2); q2 = xy (snd line2);
          x_diff = (fst p1 - fst q1, fst p2 - fst q2);
          y_diff = (snd p1 - snd q1, snd p2 - snd q2);
          divisor = det2 x_diff y_diff
      in if divisor = 0 then None
         else (let d = (det2 p1 q1, det2 p2 q2)
               in Some (det2 d x_diff / divisor, det2 d y_diff / divisor, 0)))"

text \<open>
  Modelled from the spec: \<^verbatim>\<open>adjacent_n_tuples\<close> of \<^verbatim>\<open>utils.iterables\<close> is not part of
  this module; the spec says corner rounding visits each vertex with its two
  neighbours. The triples are those of the list with its rotations by one and by two
  places.
\<close>

definition rotated :: "nat \<Rightarrow> 'a list \<Rightarrow> 'a list" where
  "rotated k xs = drop k xs @ take k xs"

definition adjacent_3_tuples :: "'a list \<Rightarrow> ('a \<times> 'a \<times> 'a) list" where
  "adjacent_3_tuples xs = zip xs (zip (rotated 1 xs) (rotated 2 xs))"

subsection \<open>TipableVMobject\<close>

text \<open>
  A tip is an object of its own: it has an identity and points. Python compares
  mobjects by identity; in the model two objects are the same when identity and points
  agree, and every new object gets an identity of its own, \<open>next_ident\<close>. The
  attributes \<^verbatim>\<open>tip\<close> and \<^verbatim>\<open>start_tip\<close> do not exist until they are assigned:
  \<open>None\<close> renders \<^verbatim>\<open>hasattr(self, "tip")\<close> being false.
\<close>

type_synonym tip_object = "nat \<times> point list"

record tipable =
  points :: "point list"
  tip_length :: real
  tip :: "tip_object option"
  start_tip :: "tip_object option"
  submobjects :: "tip_object list"
  next_ident :: nat

definition DEFAULT_ARROW_TIP_LENGTH :: real where
  "DEFAULT_ARROW_TIP_LENGTH = 35 / 100"

text \<open>
  Modelled from the spec: \<^verbatim>\<open>Mobject.add\<close>, \<^verbatim>\<open>Mobject.remove\<close> and the membership test
  \<^verbatim>\<open>mobject in self\<close> are not part of this module; the spec lists ``parent/child
  add/remove'' among the collaborator's capabilities. Adding lists the object last,
  once; removing takes its first occurrence away; membership looks among the children.
\<close>

definition list_update_py :: "tip_object list \<Rightarrow> tip_object \<Rightarrow> tip_object list" where
  "list_update_py l1 x = filter (\<lambda>e. e \<noteq> x) l1 @ [x]"

definition add :: "'a tipable_scheme \<Rightarrow> tip_object \<Rightarrow> 'a tipable_scheme" where
  "add self x = self\<lparr>submobjects := list_update_py (submobjects self) x\<rparr>"

definition remove :: "'a tipable_scheme \<Rightarrow> tip_object \<Rightarrow> 'a tipable_scheme" where
  "remove self x = self\<lparr>submobjects := remove1 x (submobjects self)\<rparr>"

definition contains :: "'a tipable_scheme \<Rightarrow> tip_object \<Rightarrow> bool" where
  "contains self x = (x \<in> set (submobjects self))"

text \<open>Checking for tips.\<close>

definition has_tip :: "'a tipable_scheme \<Rightarrow> bool" where
  "has_tip self = (case tip self of None \<Rightarrow> False | Some t \<Rightarrow> contains self t)"

definition has_start_tip :: "'a tipable_scheme \<Rightarrow> bool" where
  "has_start_tip self = (case start_tip self of None \<Rightarrow> False | Some t \<Rightarrow> contains self t)"

text \<open>Getters. The end and the start of a path with a tip are those of the tip.\<close>

definition get_end :: "'a tipable_scheme \<Rightarrow> error + point" where
  "get_end self =
     (if has_tip self then (case tip self of Some t \<Rightarrow> VMobject_get_start (snd t)
                            | None \<Rightarrow> VMobject_get_end (points self))
      else VMobject_get_end (points self))"

definition get_start :: "'a tipable_scheme \<Rightarrow> error + point" where
  "get_start self =
     (if has_start_tip self then (case start_tip self of Some t \<Rightarrow> VMobject_get_start (snd t)
                                  | None \<Rightarrow> VMobject_get_start (points self))
      else VMobject_get_start (points self))"

definition get_start_and_end :: "'a tipable_scheme \<Rightarrow> error + point \<times> point" where
  "get_start_and_end self =
     (case get_start self of Inl e \<Rightarrow> Inl e | Inr s \<Rightarrow>
      (case get_end self of Inl e \<Rightarrow> Inl e | Inr e \<Rightarrow> Inr (s, e)))"

definition get_length :: "'a tipable_scheme \<Rightarrow> error + real" where
  "get_length self =
     (case get_start_and_end self of Inl e \<Rightarrow> Inl e
      | Inr (s, e) \<Rightarrow> Inr (get_norm (vsub s e)))"

definition get_default_tip_length :: "'a tipable_scheme \<Rightarrow> real" where
  "get_default_tip_length self = tip_length self"

definition get_first_handle :: "'a tipable_scheme \<Rightarrow> error + point" where
  "get_first_handle self = py_index (points self) 1"

definition get_last_handle :: "'a tipable_scheme \<Rightarrow> error + point" where
  "get_last_handle self = py_index (points self) (- 2)"

text \<open>The methods of \<^verbatim>\<open>ArrowTip\<close> that the tip attachment uses.\<close>

definition ArrowTip_get_base :: "collab \<Rightarrow> tip_object \<Rightarrow> point" where
  "ArrowTip_get_base K t = ext_point_from_proportion K (snd t) (1 / 2)"

definition ArrowTip_get_tip_point :: "tip_object \<Rightarrow> error + point" where
  "ArrowTip_get_tip_point t = py_index (snd t) 0"

definition ArrowTip_get_vector :: "collab \<Rightarrow> tip_object \<Rightarrow> error + point" where
  "ArrowTip_get_vector K t =
     (case ArrowTip_get_tip_point t of Inl e \<Rightarrow> Inl e
      | Inr p \<Rightarrow> Inr (vsub p (ArrowTip_get_base K t)))"

definition ArrowTip_get_angle :: "collab \<Rightarrow> tip_object \<Rightarrow> error + real" where
  "ArrowTip_get_angle K t =
     (case ArrowTip_get_vector K t of Inl e \<Rightarrow> Inl e
      | Inr v \<Rightarrow> Inr (ext_angle_of_vector K v))"

text \<open>
  Adding, creating, modifying tips. The new tip takes the next identity; its colour and
  style play no part in the model.
\<close>

definition get_unpositioned_tip ::
  "collab \<Rightarrow> 'a tipable_scheme \<Rightarrow> real option \<Rightarrow> tip_object \<times> 'a tipable_scheme" where
  "get_unpositioned_tip K self tip_length_arg =
     (let tip_length = (case tip_length_arg of None \<Rightarrow> get_default_tip_length self
                        | Some l \<Rightarrow> l)
      in ((next_ident self, ext_ArrowTip K tip_length),
          self\<lparr>next_ident := Suc (next_ident self)\<rparr>))"

definition position_tip ::
  "collab \<Rightarrow> 'a tipable_scheme \<Rightarrow> tip_object \<Rightarrow> bool \<Rightarrow> error + tip_object" where
  "position_tip K self t at_start =
     (case (if at_start
            then (case get_start self of Inl e \<Rightarrow> Inl e | Inr anchor \<Rightarrow>
                  (case get_first_handle self of Inl e \<Rightarrow> Inl e
                   | Inr handle \<Rightarrow> Inr (anchor, handle)))
            else (case get_last_handle self of Inl e \<Rightarrow> Inl e | Inr handle \<Rightarrow>
                  (case get_end self of Inl e \<Rightarrow> Inl e
                   | Inr anchor \<Rightarrow> Inr (anchor, handle)))) of
        Inl e \<Rightarrow> Inl e
      | Inr (anchor, handle) \<Rightarrow>
          (case ArrowTip_get_angle K t of Inl e \<Rightarrow> Inl e | Inr tip_angle \<Rightarrow>
           (let t1 = (fst t, ext_rotate K (snd t)
                        (ext_angle_of_vector K (vsub handle anchor) - pi - tip_angle))
            in (case ArrowTip_get_tip_point t1 of Inl e \<Rightarrow> Inl e
                | Inr tip_point \<Rightarrow> Inr (fst t1, shift (snd t1) (vsub anchor tip_point))))))"

definition create_tip ::
  "collab \<Rightarrow> 'a tipable_scheme \<Rightarrow> real option \<Rightarrow> bool
     \<Rightarrow> error + tip_object \<times> 'a tipable_scheme" where
  "create_tip K self tip_length_arg at_start =
     (case get_unpositioned_tip K self tip_length_arg of (t, self1) \<Rightarrow>
        (case position_tip K self1 t at_start of Inl e \<Rightarrow> Inl e
         | Inr t1 \<Rightarrow> Inr (t1, self1)))"

definition put_start_and_end_on ::
  "collab \<Rightarrow> 'a tipable_scheme \<Rightarrow> point \<Rightarrow> point \<Rightarrow> 'a tipable_scheme" where
  "put_start_and_end_on K self s e =
     self\<lparr>points := ext_put_start_and_end_on K (points self) s e\<rparr>"

definition reset_endpoints_based_on_tip ::
  "collab \<Rightarrow> 'a tipable_scheme \<Rightarrow> tip_object \<Rightarrow> bool \<Rightarrow> error + 'a tipable_scheme" where
  "reset_endpoints_based_on_tip K self t at_start =
     (case get_length self of Inl e \<Rightarrow> Inl e
      | Inr l \<Rightarrow>
          if l = 0 then Inr self
          else if at_start then
            (case get_end self of Inl e \<Rightarrow> Inl e
             | Inr e \<Rightarrow> Inr (put_start_and_end_on K self (ArrowTip_get_base K t) e))
          else
            (case get_start self of Inl e \<Rightarrow> Inl e
             | Inr s \<Rightarrow> Inr (put_start_and_end_on K self s (ArrowTip_get_base K t))))"

definition asign_tip_attr :: "'a tipable_scheme \<Rightarrow> tip_object \<Rightarrow> bool \<Rightarrow> 'a tipable_scheme" where
  "asign_tip_attr self t at_start =
     (if at_start then self\<lparr>start_tip := Some t\<rparr> else self\<lparr>tip := Some t\<rparr>)"

definition add_tip ::
  "collab \<Rightarrow> real option \<Rightarrow> bool \<Rightarrow> 'a tipable_scheme \<Rightarrow> error + 'a tipable_scheme" where
  "add_tip K tip_length_arg at_start self =
     (case create_tip K self tip_length_arg at_start of Inl e \<Rightarrow> Inl e
      | Inr (t, self1) \<Rightarrow>
          (case reset_endpoints_based_on_tip K self1 t at_start of Inl e \<Rightarrow> Inl e
           | Inr self2 \<Rightarrow> Inr (add (asign_tip_attr self2 t at_start) t)))"

text \<open>
  \<^verbatim>\<open>pop_tips\<close> returns the group of the tips it took away, and the path. A group is the
  list of its members; adding to it is the same list update as above.
\<close>

definition pop_tips ::
  "collab \<Rightarrow> 'a tipable_scheme \<Rightarrow> error + tip_object list \<times> 'a tipable_scheme" where
  "pop_tips K self =
     (case get_start_and_end self of Inl e \<Rightarrow> Inl e
      | Inr (s, e) \<Rightarrow>
          (let (result1, self1) =
                 (case tip self of
                    Some t \<Rightarrow> if has_tip self then (list_update_py [] t, remove self t)
                              else ([], self)
                  | None \<Rightarrow> ([], self));
               (result2, self2) =
                 (case start_tip self1 of
                    Some t \<Rightarrow> if has_start_tip self1
                              then (list_update_py result1 t, remove self1 t)
                              else (result1, self1)
                  | None \<Rightarrow> (result1, self1))
           in Inr (result2, put_start_and_end_on K self2 s e)))"

definition get_tips :: "'a tipable_scheme \<Rightarrow> tip_object list" where
  "get_tips self =
     (let result1 = (case tip self of Some t \<Rightarrow> list_update_py [] t | None \<Rightarrow> [])
      in (case start_tip self of Some t \<Rightarrow> list_update_py result1 t | None \<Rightarrow> result1))"

definition get_tip :: "'a tipable_scheme \<Rightarrow> error + tip_object" where
  "get_tip self = (case get_tips self of [] \<Rightarrow> Inl TipNotFound | t # ts \<Rightarrow> Inr t)"

subsection \<open>Arc and ArcBetweenPoints\<close>

text \<open>\<^verbatim>\<open>np.linspace(start, stop, num)\<close>: \<open>num\<close> values from \<open>start\<close> to \<open>stop\<close> in equal steps.\<close>

definition linspace :: "real \<Rightarrow> real \<Rightarrow> nat \<Rightarrow> real list" where
  "linspace start stop num =
     map (\<lambda>i. start + real i * ((stop - start) / real (num - 1))) [0..<num]"

text \<open>
  \<^verbatim>\<open>set_pre_positioned_points\<close>, on the unit circle. Without components the
  indexing of the empty array of anchors raises; with one component the division by
  \<^verbatim>\<open>num_components - 1.0\<close> does.
\<close>

definition set_pre_positioned_points :: "real \<Rightarrow> real \<Rightarrow> nat \<Rightarrow> error + point list" where
  "set_pre_positioned_points start_angle angle num_components =
     (if num_components = 0 then Inl IndexError
      else if num_components = 1 then Inl ZeroDivisionError
      else
        (let anchors = map (\<lambda>a. vadd (smul (cos a) RIGHT) (smul (sin a) UP))
                         (linspace start_angle (start_angle + angle) num_components);
             d_theta = angle / (real num_components - 1);
             tangent_vectors = map (\<lambda>(x, y, z). (- y, x, 0)) anchors;
             handles1 = map (\<lambda>(a, t). vadd a (smul (d_theta / 3) t))
                          (zip (butlast anchors) (butlast tangent_vectors));
             handles2 = map (\<lambda>(a, t). vsub a (smul (d_theta / 3) t))
                          (zip (tl anchors) (tl tangent_vectors))
         in Inr (set_anchors_and_handles (butlast anchors) handles1 handles2 (tl anchors))))"

definition generate_points :: "real \<Rightarrow> real \<Rightarrow> nat \<Rightarrow> real \<Rightarrow> point \<Rightarrow> error + point list" where
  "generate_points start_angle angle num_components radius arc_center =
     (case set_pre_positioned_points start_angle angle num_components of
        Inl e \<Rightarrow> Inl e
      | Inr pts \<Rightarrow> Inr (shift (scale_about_origin pts radius) arc_center))"

text \<open>
  The first part of the constructor of \<^verbatim>\<open>ArcBetweenPoints\<close>: the sweep angle, given
  or derived from the radius. The quotient by the radius raises for a radius of zero.
\<close>

definition ArcBetweenPoints_angle :: "point \<Rightarrow> point \<Rightarrow> real \<Rightarrow> real option \<Rightarrow> error + real" where
  "ArcBetweenPoints_angle start end angle radius_arg =
     (case radius_arg of
        None \<Rightarrow> Inr angle
      | Some r \<Rightarrow>
          (let (sign, radius) = (if r < 0 then (- 2, r * - 1) else (2, r));
               halfdist = get_norm (vsub start end) / 2
           in if radius < halfdist then Inl InvalidRadius
              else if radius = 0 then Inl ZeroDivisionError
              else (let arc_height = radius - sqrt (radius\<^sup>2 - halfdist\<^sup>2)
                    in Inr (arccos ((radius - arc_height) / radius) * sign))))"

text \<open>
  An arc is a path with tips that also records its angles, its radius (which
  \<^verbatim>\<open>ArcBetweenPoints\<close> may set to \<^verbatim>\<open>math.inf\<close>), the failure flag of the centre
  recovery, and the warnings it has emitted.
\<close>

record arc = tipable +
  start_angle :: real
  angle :: real
  radius :: pyfloat
  num_components :: nat
  arc_center :: point
  failed_to_get_center :: bool
  warnings :: "string list"

text \<open>
  The constructor of \<^verbatim>\<open>Arc\<close>: the radius, the number of components and the centre
  come from the configuration (1, 9 and the origin unless given); a new path has no
  children and no tip attributes, and its points are generated at once.
\<close>

definition Arc_init :: "real \<Rightarrow> real \<Rightarrow> real \<Rightarrow> nat \<Rightarrow> point \<Rightarrow> error + arc" where
  "Arc_init start_angle' angle' radius' num_components' arc_center' =
     (case generate_points start_angle' angle' num_components' radius' arc_center' of
        Inl e \<Rightarrow> Inl e
      | Inr pts \<Rightarrow>
          Inr \<lparr>points = pts, tip_length = DEFAULT_ARROW_TIP_LENGTH, tip = None,
               start_tip = None, submobjects = [], next_ident = 0,
               start_angle = start_angle', angle = angle', radius = Fin radius',
               num_components = num_components', arc_center = arc_center',
               failed_to_get_center = False, warnings = []\<rparr>)"

text \<open>
  \<^verbatim>\<open>get_arc_center\<close> returns the centre and the arc, whose flag and warnings it may
  have changed. The tuple assignment from \<^verbatim>\<open>self.points[:4]\<close> needs four points.
\<close>

definition get_arc_center :: "bool \<Rightarrow> 'a arc_scheme \<Rightarrow> error + point \<times> 'a arc_scheme" where
  "get_arc_center warning self =
     (case points self of
        a1 # h1 # h2 # a2 # rest \<Rightarrow>
          (let t1 = vsub h1 a1;
               t2 = vsub h2 a2;
               n1 = rotate_vector t1 (TAU / 4);
               n2 = rotate_vector t2 (TAU / 4)
           in (case line_intersection (a1, vadd a1 n1) (a2, vadd a2 n2) of
                 Some c \<Rightarrow> Inr (c, self)
               | None \<Rightarrow>
                   Inr (ORIGIN,
                        self\<lparr>failed_to_get_center := True,
                             warnings := (if warning
                               then warnings self @ [''Can't find Arc center, using ORIGIN instead'']
                               else warnings self)\<rparr>)))
      | _ \<Rightarrow> Inl UnpackError)"

text \<open>The last part: the radius of an arc that was given none.\<close>

definition ArcBetweenPoints_infer_radius :: "point \<Rightarrow> 'a arc_scheme \<Rightarrow> error + 'a arc_scheme" where
  "ArcBetweenPoints_infer_radius start self =
     (case get_arc_center False self of
        Inl e \<Rightarrow> Inl e
      | Inr (center, self1) \<Rightarrow>
          if \<not> failed_to_get_center self1
          then Inr (self1\<lparr>radius := Fin (get_norm (vsub start center))\<rparr>)
          else Inr (self1\<lparr>radius := PInf\<rparr>))"

definition ArcBetweenPoints_init ::
  "collab \<Rightarrow> point \<Rightarrow> point \<Rightarrow> real \<Rightarrow> real option \<Rightarrow> nat \<Rightarrow> point \<Rightarrow> error + arc" where
  "ArcBetweenPoints_init K start end angle_arg radius_arg num_components' arc_center' =
     (case ArcBetweenPoints_angle start end angle_arg radius_arg of
        Inl e \<Rightarrow> Inl e
      | Inr angle' \<Rightarrow>
          (case Arc_init 0 angle' (case radius_arg of Some r \<Rightarrow> r | None \<Rightarrow> 1)
                  num_components' arc_center' of
             Inl e \<Rightarrow> Inl e
           | Inr self \<Rightarrow>
               (let self1 = (if angle' = 0
                             then self\<lparr>points := set_points_as_corners [LEFT, RIGHT]\<rparr>
                             else self);
                    self2 = put_start_and_end_on K self1 start end
                in (case radius_arg of
                      Some r \<Rightarrow> Inr self2
                    | None \<Rightarrow> ArcBetweenPoints_infer_radius start self2))))"

subsection \<open>Line\<close>

text \<open>
  \<^verbatim>\<open>account_for_buff\<close> in three steps: the length it measures, the range of
  proportions it keeps (\<open>None\<close> when it returns without trimming), and the trimming
  itself. The range depends on the length and the buffer only.
\<close>

definition buff_range :: "real \<Rightarrow> real \<Rightarrow> (pyfloat \<times> pyfloat) option" where
  "buff_range len buff =
     (if len < 2 * buff then None
      else (let buff_proportion = np_div buff len
            in Some (buff_proportion, one_minus buff_proportion)))"

record line = tipable +
  buff :: real
  path_arc :: "real option"

definition buff_length :: "collab \<Rightarrow> 'a line_scheme \<Rightarrow> error + real" where
  "buff_length K self =
     (if path_arc self = Some 0 then get_length self
      else Inr (ext_get_arc_length K (points self)))"

definition account_for_buff :: "collab \<Rightarrow> 'a line_scheme \<Rightarrow> error + 'a line_scheme" where
  "account_for_buff K self =
     (if buff self = 0 then Inr self
      else (case buff_length K self of
              Inl e \<Rightarrow> Inl e
            | Inr len \<Rightarrow>
                (case buff_range len (buff self) of
                   None \<Rightarrow> Inr self
                 | Some (a, b) \<Rightarrow>
                     Inr (self\<lparr>points := ext_pointwise_become_partial K (points self) a b\<rparr>))))"

subsection \<open>Polygon\<close>

text \<open>
  The first loop of \<^verbatim>\<open>round_corners\<close>: for the vertex \<open>v2\<close> between \<open>v1\<close> and \<open>v3\<close>,
  the start point, the end point and the angle that are passed to
  \<^verbatim>\<open>ArcBetweenPoints\<close>.
\<close>

fun cross_z :: "point \<Rightarrow> point \<Rightarrow> real" where
  "cross_z (a, b, c) (d, e, f) = a * e - b * d"

definition round_corner_arc :: "collab \<Rightarrow> real \<Rightarrow> point \<times> point \<times> point \<Rightarrow> point \<times> point \<times> real" where
  "round_corner_arc K radius' vs =
     (case vs of (v1, v2, v3) \<Rightarrow>
        (let vect1 = vsub v2 v1;
             vect2 = vsub v3 v2;
             unit_vect1 = ext_normalize K vect1;
             unit_vect2 = ext_normalize K vect2;
             angle0 = ext_angle_between_vectors K vect1 vect2;
             angle' = angle0 * sgn radius';
             cut_off_length = radius' * tan (angle' / 2);
             sign = sgn (cross_z vect1 vect2)
         in (vsub v2 (smul cut_off_length unit_vect1),
             vadd v2 (smul cut_off_length unit_vect2),
             sign * angle')))"

definition round_corners_arcs :: "collab \<Rightarrow> real \<Rightarrow> point list \<Rightarrow> (point \<times> point \<times> real) list" where
  "round_corners_arcs K radius' vertices' =
     map (round_corner_arc K radius') (adjacent_3_tuples vertices')"

subsection \<open>Tiling\<close>

text \<open>
  An offset rule is a flat Python list \<^verbatim>\<open>[method, value, method, value, ...]\<close>. A value
  is a vector such as \<^verbatim>\<open>[1, 0, 0]\<close> or a scalar such as \<^verbatim>\<open>np.pi\<close>, of floats; a method is
  called as \<^verbatim>\<open>method(tile, magnitude * np.array(value))\<close> and changes the tile in
  place, which the model renders by returning the new tile.
\<close>

datatype arg = Vec point | Scalar real

datatype 't offset_item = Method "'t \<Rightarrow> arg \<Rightarrow> 't" | Value arg

fun scale_arg :: "int \<Rightarrow> arg \<Rightarrow> arg" where
  "scale_arg m (Vec v) = Vec (smul (of_int m) v)"
| "scale_arg m (Scalar a) = Scalar (of_int m * a)"

text \<open>\<^verbatim>\<open>Mobject.shift\<close> as a tiling method; a scalar is broadcast to all coordinates.\<close>

fun shift_method :: "point list \<Rightarrow> arg \<Rightarrow> point list" where
  "shift_method tile (Vec v) = shift tile v"
| "shift_method tile (Scalar a) = shift tile (a, a, a)"

text \<open>
  The number of elements of \<^verbatim>\<open>range(start, stop, step)\<close>, for a step that is not zero.
\<close>

definition range_count :: "int \<Rightarrow> int \<Rightarrow> int \<Rightarrow> int" where
  "range_count start stop step =
     (if 0 < step then (if start < stop then (stop - start - 1) div step + 1 else 0)
      else if step < 0 then (if stop < start then (start - stop - 1) div (- step) + 1 else 0)
      else 0)"

text \<open>
  \<^verbatim>\<open>len(range(start, stop, step))\<close>. Python integers are unbounded, but \<^verbatim>\<open>range\<close>
  refuses the step zero, and \<^verbatim>\<open>len\<close> returns a machine index: it raises when the
  number of elements is above \<^verbatim>\<open>sys.maxsize\<close>, which is \<open>2\<^sup>6\<^sup>3 - 1\<close> on a 64-bit
  platform.
\<close>

definition maxsize :: int where
  "maxsize = 9223372036854775807"

definition range_len :: "int \<Rightarrow> int \<Rightarrow> int \<Rightarrow> error + int" where
  "range_len start stop step =
     (if step = 0 then Inl ValueError
      else if maxsize < range_count start stop step then Inl OverflowError
      else Inr (range_count start stop step))"

text \<open>The magnitude and the rule index that \<^verbatim>\<open>transform_tile\<close> computes for loop index \<open>i\<close>.\<close>

definition magnitude :: "int \<Rightarrow> int \<Rightarrow> int \<Rightarrow> error + int" where
  "magnitude offsets_nr position i =
     (if position < 0
      then (case range_len (- i) position (- offsets_nr) of
              Inl e \<Rightarrow> Inl e | Inr n \<Rightarrow> Inr (n * - 1))
      else range_len i position offsets_nr)"

definition rule_index :: "int \<Rightarrow> int \<Rightarrow> int" where
  "rule_index position i = (if position < 0 then - 1 - i else i)"

text \<open>
  The call \<^verbatim>\<open>offset[r][0 + j * 2](tile, magnitude * np.array(offset[r][1 + j * 2]))\<close>,
  made once the magnitude has been computed: the method is looked up first, then the
  value, then the method is called.
\<close>

definition call_offset ::
  "'t offset_item list list \<Rightarrow> int \<Rightarrow> int \<Rightarrow> int \<Rightarrow> 't \<Rightarrow> error + 't" where
  "call_offset offset r j m tile =
     (case py_index offset r of Inl e \<Rightarrow> Inl e | Inr rule \<Rightarrow>
      (case py_index rule (0 + j * 2) of Inl e \<Rightarrow> Inl e | Inr f \<Rightarrow>
       (case py_index rule (1 + j * 2) of Inl e \<Rightarrow> Inl e | Inr v \<Rightarrow>
        (case (f, v) of
           (Method g, Value a) \<Rightarrow> Inr (g tile (scale_arg m a))
         | _ \<Rightarrow> Inl TypeError))))"

definition transform_tile :: "int \<Rightarrow> 't offset_item list list \<Rightarrow> 't \<Rightarrow> error + 't" where
  "transform_tile position offset tile =
     (let offsets_nr = length offset in
      for_each
        (\<lambda>i. for_each
           (\<lambda>j tile'.
              (case magnitude (int offsets_nr) position (int i) of
                 Inl e \<Rightarrow> Inl e
               | Inr m \<Rightarrow> call_offset offset (rule_index position (int i)) (int j) m tile'))
           [0..<length (offset ! i) div 2])
        [0..<offsets_nr] tile)"

definition apply_transforms ::
  "'t offset_item list list \<Rightarrow> 't offset_item list list \<Rightarrow> int \<Rightarrow> int \<Rightarrow> 't \<Rightarrow> error + 't" where
  "apply_transforms x_offset y_offset x y tile =
     (case transform_tile x x_offset tile of Inl e \<Rightarrow> Inl e
      | Inr tile' \<Rightarrow> transform_tile y y_offset tile')"

subsection \<open>EdgeVertexGraph\<close>

text \<open>
  The graph dictionary, in the order of its items. A key is an integer or something
  else (which the constructor rejects); an adjacency entry is an integer, a list
  \<^verbatim>\<open>[id, config]\<close>, or something else (rejected); a configuration dictionary is a list
  of keyword and value. The attributes of a vertex are its position, its adjacency
  entries and its configuration.
\<close>

datatype pykey = IntKey int | OtherKey string

type_synonym config = "(string \<times> string) list"

datatype edge_definition = EdgeInt int | EdgeList int config | EdgeOther

type_synonym attributes = "point \<times> edge_definition list \<times> config"

type_synonym graph = "(pykey \<times> attributes) list"

record ('v, 'e) edge_vertex_graph =
  vertices :: "'v list"
  edges :: "'e list"

text \<open>The dictionary \<^verbatim>\<open>{**a, **b}\<close>: the items of \<open>a\<close> with the values \<open>b\<close> overrides, then the new items of \<open>b\<close>.\<close>

definition dict_merge :: "config \<Rightarrow> config \<Rightarrow> config" where
  "dict_merge a b =
     map (\<lambda>(k, v). (k, case map_of b k of Some w \<Rightarrow> w | None \<Rightarrow> v)) a
     @ filter (\<lambda>(k, v). map_of a k = None) b"

fun is_int_key :: "pykey \<Rightarrow> bool" where
  "is_int_key (IntKey n) = True"
| "is_int_key (OtherKey s) = False"

text \<open>
  The branches \<^verbatim>\<open>isinstance(edge_definition, int)\<close> and
  \<^verbatim>\<open>isinstance(edge_definition, list)\<close>: the vertex number and the keyword arguments
  of the edge.
\<close>

fun edge_target :: "edge_definition \<Rightarrow> (int \<times> config) option" where
  "edge_target (EdgeInt n) = Some (n, [])"
| "edge_target (EdgeList n kw) = Some (n, kw)"
| "edge_target EdgeOther = None"

text \<open>
  The body of the inner loop, for one adjacency entry of the vertex \<open>vertex\<close> at
  \<open>pos\<close>. The edge constructor \<open>edge_type\<close> is a parameter (by default
  \<^verbatim>\<open>ArcBetweenPoints\<close>) and may raise.
\<close>

definition add_edge ::
  "(point \<Rightarrow> point \<Rightarrow> config \<Rightarrow> error + 'e) \<Rightarrow> graph \<Rightarrow> config \<Rightarrow> pykey \<Rightarrow> point
     \<Rightarrow> edge_definition \<Rightarrow> ('v, 'e) edge_vertex_graph \<Rightarrow> error + ('v, 'e) edge_vertex_graph" where
  "add_edge edge_type graph edge_config vertex pos edge_definition self =
     (case edge_target edge_definition of
        None \<Rightarrow> Inl InvalidEdgeDefinition
      | Some (vertex_number, edge_kwargs) \<Rightarrow>
          (case vertex of
             OtherKey s \<Rightarrow> Inl TypeError
           | IntKey n \<Rightarrow>
               if n < vertex_number then
                 (case map_of graph (IntKey vertex_number) of
                    None \<Rightarrow> Inl KeyError
                  | Some (pos', eds', cfg') \<Rightarrow>
                      (case edge_type pos pos'
                              (dict_merge (dict_merge [(''angle'', ''0'')] edge_config) edge_kwargs) of
                         Inl e \<Rightarrow> Inl e
                       | Inr edge \<Rightarrow> Inr (self\<lparr>edges := edges self @ [edge]\<rparr>)))
               else Inr self))"

text \<open>
  The body of the outer loop: the vertex shape is built by \<open>vertex_type\<close> (by default
  \<^verbatim>\<open>Circle\<close>) from the merged configuration and shifted to the position, then the
  adjacency entries are visited.
\<close>

definition add_vertex ::
  "(config \<Rightarrow> point \<Rightarrow> error + 'v) \<Rightarrow> (point \<Rightarrow> point \<Rightarrow> config \<Rightarrow> error + 'e) \<Rightarrow> graph
     \<Rightarrow> config \<Rightarrow> config \<Rightarrow> pykey \<times> attributes
     \<Rightarrow> ('v, 'e) edge_vertex_graph \<Rightarrow> error + ('v, 'e) edge_vertex_graph" where
  "add_vertex vertex_type edge_type graph vertex_config edge_config item self =
     (case item of (vertex, pos, eds, cfg) \<Rightarrow>
        (case vertex_type (dict_merge vertex_config cfg) pos of
           Inl e \<Rightarrow> Inl e
         | Inr v \<Rightarrow>
             for_each (add_edge edge_type graph edge_config vertex pos) eds
               (self\<lparr>vertices := vertices self @ [v]\<rparr>)))"

definition EdgeVertexGraph ::
  "(config \<Rightarrow> point \<Rightarrow> error + 'v) \<Rightarrow> (point \<Rightarrow> point \<Rightarrow> config \<Rightarrow> error + 'e) \<Rightarrow> graph
     \<Rightarrow> config \<Rightarrow> config \<Rightarrow> error + ('v, 'e) edge_vertex_graph" where
  "EdgeVertexGraph vertex_type edge_type graph vertex_config edge_config =
     (if \<not> list_all (\<lambda>(n, a). is_int_key n) graph then Inl InvalidGraphKeys
      else if \<not> list_all (\<lambda>(n, pos, eds, cfg). list_all (\<lambda>m. edge_target m \<noteq> None) eds) graph
        then Inl InvalidEdgeDefinition
      else for_each (add_vertex vertex_type edge_type graph vertex_config edge_config) graph
             \<lparr>vertices = [], edges = []\<rparr>)"

text \<open>
  The adjacency entries of a graph, each with the key it is listed under, and the test
  \<^verbatim>\<open>vertex < vertex_number\<close> on such an entry.
\<close>

definition adjacency :: "graph \<Rightarrow> (pykey \<times> edge_definition) list" where
  "adjacency graph = concat (map (\<lambda>(vertex, pos, eds, cfg). map (\<lambda>m. (vertex, m)) eds) graph)"

fun lower_to_higher :: "pykey \<times> edge_definition \<Rightarrow> bool" where
  "lower_to_higher (IntKey u, m) = (case edge_target m of Some (v, kw) \<Rightarrow> u < v | None \<Rightarrow> False)"
| "lower_to_higher (OtherKey s, m) = False"

text \<open>
  A valid graph dictionary: the keys are distinct integers, every adjacency entry is an
  integer or a list, and every entry that leads from a lower to a higher number names a
  key of the dictionary.
\<close>

fun names_key :: "graph \<Rightarrow> pykey \<times> edge_definition \<Rightarrow> bool" where
  "names_key graph (vertex, m) =
     (case edge_target m of Some (v, kw) \<Rightarrow> map_of graph (IntKey v) \<noteq> None | None \<Rightarrow> False)"

definition valid_graph :: "graph \<Rightarrow> bool" where
  "valid_graph graph =
     (distinct (map fst graph)
      \<and> list_all (\<lambda>(n, a). is_int_key n) graph
      \<and> list_all (\<lambda>(n, pos, eds, cfg). list_all (\<lambda>m. edge_target m \<noteq> None) eds) graph
      \<and> list_all (names_key graph) (filter lower_to_higher (adjacency graph)))"

section \<open>Verified properties\<close>

subsection \<open>Tiling offsets\<close>

lemma residue_set_eq:
  fixes k i p :: int
  assumes k: "0 < k" and i0: "0 \<le> i" and ik: "i < k"
  shows "{x. 0 \<le> x \<and> x < p \<and> x mod k = i} = (\<lambda>m. i + int m * k) ` {0..<nat (range_count i p k)}"
proof (cases "i < p")
  case False
  have "{x. 0 \<le> x \<and> x < p \<and> x mod k = i} = {}"
  proof -
    { fix x assume "0 \<le> x" "x < p" "x mod k = i"
      then have "i \<le> x" using k by (metis zmod_le_nonneg_dividend)
      with \<open>x < p\<close> False have False by simp }
    then show ?thesis by auto
  qed
  moreover have "range_count i p k = 0" using False k by (simp add: range_count_def)
  ultimately show ?thesis by simp
next
  case True
  define q where "q = (p - i - 1) div k"
  have q0: "0 \<le> q" using True k by (simp add: q_def pos_imp_zdiv_nonneg_iff)
  have n: "range_count i p k = q + 1" using True k by (simp add: range_count_def q_def)
  have le_iff: "(m \<le> q) = (i + m * k < p)" for m :: int
  proof -
    have "(m \<le> q) = (m * k \<le> p - i - 1)"
    proof
      assume "m \<le> q"
      then have "m * k \<le> q * k" using k by simp
      also have "q * k \<le> p - i - 1"
        unfolding q_def using k
        by (metis mult.commute pos_mod_sign mult_div_mod_eq le_add_same_cancel1)
      finally show "m * k \<le> p - i - 1" .
    next
      assume "m * k \<le> p - i - 1"
      then have "(m * k) div k \<le> (p - i - 1) div k" using k by (rule zdiv_mono1)
      then show "m \<le> q" using k by (simp add: q_def)
    qed
    then show ?thesis by auto
  qed
  show ?thesis
  proof (intro set_eqI iffI)
    fix x assume "x \<in> {x. 0 \<le> x \<and> x < p \<and> x mod k = i}"
    then have x: "0 \<le> x" "x < p" "x mod k = i" by auto
    define m where "m = x div k"
    have m0: "0 \<le> m" using x k by (simp add: m_def pos_imp_zdiv_nonneg_iff)
    have xe: "x = i + m * k"
      using x(3) by (simp add: m_def) (metis add.commute mult.commute mult_div_mod_eq)
    then have "m \<le> q" using le_iff x(2) by simp
    then have "nat m \<in> {0..<nat (range_count i p k)}" using n m0 by auto
    moreover have "x = i + int (nat m) * k" using xe m0 by simp
    ultimately show "x \<in> (\<lambda>m. i + int m * k) ` {0..<nat (range_count i p k)}" by blast
  next
    fix x assume "x \<in> (\<lambda>m. i + int m * k) ` {0..<nat (range_count i p k)}"
    then obtain m where m: "m < nat (range_count i p k)" "x = i + int m * k" by auto
    then have "int m \<le> q" using n q0 by auto
    then have "x < p" using le_iff m(2) by simp
    moreover have "0 \<le> x" using m(2) i0 k by simp
    moreover have "x mod k = i" using m(2) i0 ik by simp
    ultimately show "x \<in> {x. 0 \<le> x \<and> x < p \<and> x mod k = i}" by simp
  qed
qed

lemma range_count_card:
  fixes k i p :: int
  assumes "0 < k" "0 \<le> i" "i < k"
  shows "range_count i p k = int (card {x. 0 \<le> x \<and> x < p \<and> x mod k = i})"
proof -
  have inj: "inj_on (\<lambda>m. i + int m * k) {0..<nat (range_count i p k)}"
    using assms(1) by (auto simp: inj_on_def)
  have nn: "0 \<le> range_count i p k"
    using assms(1) by (simp add: range_count_def pos_imp_zdiv_nonneg_iff)
  show ?thesis
    unfolding residue_set_eq [OF assms] card_image [OF inj] using nn by simp
qed

lemma range_count_neg:
  fixes k i p :: int
  assumes "0 < k"
  shows "range_count (- i) p (- k) = range_count i (- p) k"
proof -
  have e: "- i - p - 1 = - p - i - 1" by simp
  show ?thesis unfolding range_count_def e using assms by simp
qed


lemma range_count_nonneg: "0 \<le> range_count start stop step"
  by (simp add: range_count_def pos_imp_zdiv_nonneg_iff)

lemma magnitude_card:
  fixes k i p :: int
  assumes "0 < k" "0 \<le> i" "i < k"
  shows "magnitude k p i =
     (if int (card {x. 0 \<le> x \<and> x < \<bar>p\<bar> \<and> x mod k = i}) \<le> maxsize
      then Inr ((if p < 0 then - 1 else 1) * int (card {x. 0 \<le> x \<and> x < \<bar>p\<bar> \<and> x mod k = i}))
      else Inl OverflowError)"
proof (cases "p < 0")
  case True
  then show ?thesis
    using range_count_card [OF assms, of "- p"] assms(1)
    by (simp add: magnitude_def range_len_def range_count_neg)
next
  case False
  then show ?thesis
    using range_count_card [OF assms, of p] assms(1)
    by (simp add: magnitude_def range_len_def)
qed

lemma rule_index_mirrored:
  assumes "0 \<le> i" "i < int (length offset)"
  shows "py_index offset (rule_index p i) =
     Inr (offset ! nat (if p < 0 then int (length offset) - 1 - i else i))"
proof (cases "p < 0")
  case True
  have A: "py_index offset (- 1 - i) = Inr (offset ! nat (int (length offset) + (- 1 - i)))"
    using assms by (simp add: py_index_def)
  have B: "int (length offset) + (- 1 - i) = int (length offset) - 1 - i" by simp
  show ?thesis unfolding rule_index_def using True by (simp only: if_True A B)
next
  case False
  then show ?thesis using assms by (simp add: py_index_def rule_index_def)
qed

lemma magnitude_single:
  "magnitude 1 p 0 = (if \<bar>p\<bar> \<le> maxsize then Inr p else Inl OverflowError)"
  by (simp add: magnitude_def range_len_def range_count_def)

lemma transform_tile_single:
  "transform_tile n [[Method f, Value a]] tile =
     (if \<bar>n\<bar> \<le> maxsize then Inr (f tile (scale_arg n a)) else Inl OverflowError)"
  by (simp add: transform_tile_def call_offset_def py_index_def rule_index_def magnitude_single)

text \<open>
  Claim C6 (as amended). With a single rule made of one shift with vector \<open>v\<close>, the tile
  at grid coordinate \<open>n\<close> is translated by exactly \<open>n\<close> times \<open>v\<close>, for positive,
  zero and negative \<open>n\<close> with \<open>|n| \<le> 2\<^sup>6\<^sup>3 - 1\<close>; beyond that \<^verbatim>\<open>len(range(...))\<close>
  raises \<^verbatim>\<open>OverflowError\<close> and the tile is not moved. With \<open>k\<close> rules, the magnitude
  computed for loop index \<open>i\<close> at coordinate \<open>p\<close> is the number of integers \<open>x\<close> with
  \<open>0 \<le> x < |p|\<close> that are congruent to \<open>i\<close> modulo \<open>k\<close> (so \<open>0\<close> itself counts when
  \<open>i = 0\<close>), negated when \<open>p\<close> is negative, under the same bound on that number, and
  for negative \<open>p\<close> it is applied with the mirrored rule \<open>k - 1 - i\<close>.
\<close>

theorem tiling_magnitude:
  "transform_tile n [[Method shift_method, Value (Vec v)]] tile
     = (if \<bar>n\<bar> \<le> maxsize then Inr (shift tile (smul (of_int n) v)) else Inl OverflowError)
   \<and> (0 \<le> i \<and> i < int (length offset) \<longrightarrow>
        magnitude (int (length offset)) p i
          = (if int (card {x. 0 \<le> x \<and> x < \<bar>p\<bar> \<and> x mod int (length offset) = i}) \<le> maxsize
             then Inr ((if p < 0 then - 1 else 1)
                * int (card {x. 0 \<le> x \<and> x < \<bar>p\<bar> \<and> x mod int (length offset) = i}))
             else Inl OverflowError)
        \<and> py_index offset (rule_index p i)
          = Inr (offset ! nat (if p < 0 then int (length offset) - 1 - i else i)))"
proof (intro conjI impI)
  show "transform_tile n [[Method shift_method, Value (Vec v)]] tile
     = (if \<bar>n\<bar> \<le> maxsize then Inr (shift tile (smul (of_int n) v)) else Inl OverflowError)"
    by (simp add: transform_tile_single)
next
  assume a: "0 \<le> i \<and> i < int (length offset)"
  then have k: "0 < int (length offset)" by linarith
  show "magnitude (int (length offset)) p i
          = (if int (card {x. 0 \<le> x \<and> x < \<bar>p\<bar> \<and> x mod int (length offset) = i}) \<le> maxsize
             then Inr ((if p < 0 then - 1 else 1)
                * int (card {x. 0 \<le> x \<and> x < \<bar>p\<bar> \<and> x mod int (length offset) = i}))
             else Inl OverflowError)"
    using magnitude_card [OF k, of i p] a by blast
  show "py_index offset (rule_index p i)
          = Inr (offset ! nat (if p < 0 then int (length offset) - 1 - i else i))"
    using rule_index_mirrored [of i offset p] a by blast
qed

text \<open>
  The theorem at the coordinate \<open>-3\<close>: a single shift rule moves the tile by \<open>-3\<close>
  times the vector; with two rules, loop index \<open>0\<close> has magnitude \<open>-2\<close> and selects
  the last rule. At the coordinate \<open>2\<^sup>6\<^sup>3\<close> the single rule raises.
\<close>

theorem tiling_magnitude_witness:
  "transform_tile (- 3) [[Method shift_method, Value (Vec (1, 0, 0))]] [(0, 0, 0)]
     = Inr [(- 3, 0, 0)]
   \<and> transform_tile 9223372036854775808 [[Method shift_method, Value (Vec (1, 0, 0))]] [(0, 0, 0)]
     = Inl OverflowError
   \<and> magnitude 2 (- 3) 0 = Inr (- 2)
   \<and> py_index [[Method shift_method, Value (Vec (1, 0, 0))], [Method shift_method, Value (Scalar 1)]]
        (rule_index (- 3) 0)
      = Inr [Method shift_method, Value (Scalar 1)]"
proof -
  have m: "magnitude 2 (- 3) 0 = Inr (- 2)"
    by (simp add: magnitude_def range_len_def range_count_def maxsize_def)
  have 1: "transform_tile (- 3) [[Method shift_method, Value (Vec (1, 0, 0))]] [(0, 0, 0)]
     = Inr [(- 3, 0, 0)]
     \<and> py_index [[Method shift_method, Value (Vec (1, 0, 0))], [Method shift_method, Value (Scalar 1)]]
        (rule_index (- 3) 0)
      = Inr [Method shift_method, Value (Scalar 1)]"
    using tiling_magnitude [of "- 3" "(1, 0, 0)" "[(0, 0, 0)]" 0
      "[[Method shift_method, Value (Vec (1, 0, 0))], [Method shift_method, Value (Scalar 1)]]" "- 3"]
    by (simp add: shift_def maxsize_def)
  have 2: "transform_tile 9223372036854775808 [[Method shift_method, Value (Vec (1, 0, 0))]] [(0, 0, 0)]
     = Inl OverflowError"
    using tiling_magnitude [of 9223372036854775808 "(1, 0, 0)" "[(0, 0, 0)]" 0 "[]" 0]
    by (simp add: maxsize_def)
  show ?thesis using m 1 2 by simp
qed

text \<open>
  Claim C6 as stated counts the multiples strictly between \<open>0\<close> and \<open>p\<close>. With one
  rule and \<open>p = 1\<close> there is no integer strictly between \<open>0\<close> and \<open>1\<close>, yet the
  magnitude is \<open>1\<close>: the tile next to the origin is moved by one step, as the class
  documentation says.
\<close>

theorem tiling_magnitude_strict_counterexample:
  "magnitude 1 1 0 \<noteq> Inr (int (card {x::int. 0 < x \<and> x < 1 \<and> x mod 1 = 0}))"
proof -
  have e: "{x::int. 0 < x \<and> x < 1 \<and> x mod 1 = 0} = {}" by auto
  show ?thesis unfolding e by (simp add: magnitude_single maxsize_def)
qed

subsection \<open>The graph builder\<close>

lemma for_each_add_edge:
  assumes "list_all (\<lambda>m. edge_target m \<noteq> None) eds"
    and "list_all (names_key graph) (filter lower_to_higher (map (\<lambda>m. (IntKey n, m)) eds))"
    and "\<forall>a b c. \<exists>e. edge_type a b c = Inr e"
  shows "\<exists>g. for_each (add_edge edge_type graph edge_config (IntKey n) pos) eds self = Inr g
           \<and> vertices g = vertices self
           \<and> length (edges g) = length (edges self)
               + length (filter lower_to_higher (map (\<lambda>m. (IntKey n, m)) eds))"
  using assms(1,2)
proof (induction eds arbitrary: self)
  case Nil
  then show ?case by simp
next
  case (Cons m eds)
  from Cons.prems(1) obtain v kw where t: "edge_target m = Some (v, kw)" by auto
  show ?case
  proof (cases "n < v")
    case True
    with t Cons.prems(2) obtain pos' eds' cfg' where
      look: "map_of graph (IntKey v) = Some (pos', eds', cfg')" by auto
    obtain e where e: "edge_type pos pos'
        (dict_merge (dict_merge [(''angle'', ''0'')] edge_config) kw) = Inr e"
      using assms(3) by blast
    have step: "add_edge edge_type graph edge_config (IntKey n) pos m self
        = Inr (self\<lparr>edges := edges self @ [e]\<rparr>)"
      using t True look e by (simp add: add_edge_def)
    from Cons.IH [of "self\<lparr>edges := edges self @ [e]\<rparr>"] Cons.prems t True
    show ?thesis by (simp add: step)
  next
    case False
    have step: "add_edge edge_type graph edge_config (IntKey n) pos m self = Inr self"
      using t False by (simp add: add_edge_def)
    from Cons.IH [of self] Cons.prems t False
    show ?thesis by (simp add: step)
  qed
qed


lemma adjacency_Cons:
  "adjacency ((vertex, pos, eds, cfg) # gs) = map (\<lambda>m. (vertex, m)) eds @ adjacency gs"
  by (simp add: adjacency_def)

lemma for_each_add_vertex:
  assumes "list_all (\<lambda>(n, a). is_int_key n) gs"
    and "list_all (\<lambda>(n, pos, eds, cfg). list_all (\<lambda>m. edge_target m \<noteq> None) eds) gs"
    and "list_all (names_key graph) (filter lower_to_higher (adjacency gs))"
    and vt: "\<forall>c p. \<exists>v. vertex_type c p = Inr v"
    and et: "\<forall>a b c. \<exists>e. edge_type a b c = Inr e"
  shows "\<exists>g. for_each (add_vertex vertex_type edge_type graph vertex_config edge_config) gs self = Inr g
           \<and> length (vertices g) = length (vertices self) + length gs
           \<and> length (edges g) = length (edges self) + length (filter lower_to_higher (adjacency gs))"
  using assms(1,2,3)
proof (induction gs arbitrary: self)
  case Nil
  then show ?case by (simp add: adjacency_def)
next
  case (Cons item gs)
  obtain vertex pos eds cfg where item: "item = (vertex, pos, eds, cfg)"
    by (cases item) auto
  from Cons.prems(1) item obtain n where n: "vertex = IntKey n"
    by (cases vertex) auto
  obtain v where v: "vertex_type (dict_merge vertex_config cfg) pos = Inr v"
    using vt by blast
  define s1 where "s1 = self\<lparr>vertices := vertices self @ [v]\<rparr>"
  have eds_ok: "list_all (\<lambda>m. edge_target m \<noteq> None) eds"
    using Cons.prems(2) item by simp
  have names_here: "list_all (names_key graph) (filter lower_to_higher (map (\<lambda>m. (IntKey n, m)) eds))"
    and names_rest: "list_all (names_key graph) (filter lower_to_higher (adjacency gs))"
    using Cons.prems(3) item n by (simp_all add: adjacency_Cons)
  from for_each_add_edge [OF eds_ok names_here et, where edge_config = edge_config and pos = pos and self = s1]
  obtain s2 where s2:
    "for_each (add_edge edge_type graph edge_config (IntKey n) pos) eds s1 = Inr s2"
    "vertices s2 = vertices s1"
    "length (edges s2) = length (edges s1)
        + length (filter lower_to_higher (map (\<lambda>m. (IntKey n, m)) eds))"
    by blast
  have step: "add_vertex vertex_type edge_type graph vertex_config edge_config item self = Inr s2"
    using item n v s2(1) by (simp add: add_vertex_def s1_def)
  from Cons.IH [of s2] Cons.prems names_rest
  obtain g where g:
    "for_each (add_vertex vertex_type edge_type graph vertex_config edge_config) gs s2 = Inr g"
    "length (vertices g) = length (vertices s2) + length gs"
    "length (edges g) = length (edges s2) + length (filter lower_to_higher (adjacency gs))"
    by auto
  show ?case
    using g s2(2,3) step by (simp add: item n adjacency_Cons s1_def)
qed

text \<open>
  Claim C7. For every valid graph dictionary, and shape constructors that do not raise,
  \<^verbatim>\<open>EdgeVertexGraph\<close> returns with one vertex shape per key and one edge shape per
  adjacency entry that leads from a lower to a higher vertex number; the other entries
  add nothing and raise nothing.
\<close>

theorem edge_vertex_graph_counts:
  assumes "valid_graph graph"
    and "\<forall>c p. \<exists>v. vertex_type c p = Inr v"
    and "\<forall>a b c. \<exists>e. edge_type a b c = Inr e"
  shows "\<exists>g. EdgeVertexGraph vertex_type edge_type graph vertex_config edge_config = Inr g
           \<and> length (vertices g) = card (fst ` set graph)
           \<and> length (edges g) = length (filter lower_to_higher (adjacency graph))"
proof -
  from assms(1) have
    d: "distinct (map fst graph)" and
    k: "list_all (\<lambda>(n, a). is_int_key n) graph" and
    e: "list_all (\<lambda>(n, pos, eds, cfg). list_all (\<lambda>m. edge_target m \<noteq> None) eds) graph" and
    t: "list_all (names_key graph) (filter lower_to_higher (adjacency graph))"
    by (simp_all add: valid_graph_def)
  from for_each_add_vertex [OF k e t assms(2) assms(3), where vertex_config = vertex_config
      and edge_config = edge_config and self = "\<lparr>vertices = [], edges = []\<rparr>"]
  obtain g where g:
    "for_each (add_vertex vertex_type edge_type graph vertex_config edge_config) graph
        \<lparr>vertices = [], edges = []\<rparr> = Inr g"
    "length (vertices g) = length graph"
    "length (edges g) = length (filter lower_to_higher (adjacency graph))"
    by auto
  have "card (fst ` set graph) = length graph"
    using distinct_card [OF d] by simp
  then show ?thesis
    using g k e by (simp add: EdgeVertexGraph_def)
qed

text \<open>
  The graph with the vertices 0, 1, 2 and the edges 0-1, 0-2, 1-2, each declared once
  from the lower to the higher number, is valid and yields 3 vertex shapes and 3 edge
  shapes.
\<close>

theorem edge_vertex_graph_counts_witness:
  "valid_graph
     [(IntKey 0, (0, 0, 0), [EdgeInt 1, EdgeInt 2], []),
      (IntKey 1, (1, 0, 0), [EdgeInt 2], []),
      (IntKey 2, (0, 1, 0), [], [])]
   \<and> (\<exists>g. EdgeVertexGraph (\<lambda>c p. Inr (c, p)) (\<lambda>a b c. Inr (a, b, c))
            [(IntKey 0, (0, 0, 0), [EdgeInt 1, EdgeInt 2], []),
             (IntKey 1, (1, 0, 0), [EdgeInt 2], []),
             (IntKey 2, (0, 1, 0), [], [])] [] []
          = Inr (g :: (config \<times> point, point \<times> point \<times> config) edge_vertex_graph)
        \<and> length (vertices g) = 3 \<and> length (edges g) = 3)"
proof -
  have v: "valid_graph
     [(IntKey 0, (0, 0, 0), [EdgeInt 1, EdgeInt 2], []),
      (IntKey 1, (1, 0, 0), [EdgeInt 2], []),
      (IntKey 2, (0, 1, 0), [], [])]"
    by (simp add: valid_graph_def adjacency_def)
  have vt: "\<forall>c p. \<exists>s. (\<lambda>c p. Inr (c, p)) (c :: config) (p :: point) = (Inr s :: error + config \<times> point)"
    by simp
  have et: "\<forall>a b c. \<exists>s. (\<lambda>a b c. Inr (a, b, c)) (a :: point) (b :: point) (c :: config)
      = (Inr s :: error + point \<times> point \<times> config)"
    by simp
  show ?thesis
    using v edge_vertex_graph_counts [OF v vt et, where vertex_config = "[]" and edge_config = "[]"]
    by (simp add: adjacency_def numeral_3_eq_3)
qed

subsection \<open>Tips, zero-length paths and buffers\<close>

lemma position_tip_ident: "position_tip K self t at_start = Inr t1 \<Longrightarrow> fst t1 = fst t"
  by (auto simp: position_tip_def Let_def split: sum.splits if_splits)

lemma create_tip_result:
  assumes "create_tip K self tlen at_start = Inr (t, self1)"
  shows "fst t = next_ident self \<and> self1 = self\<lparr>next_ident := Suc (next_ident self)\<rparr>"
  using assms position_tip_ident
  by (fastforce simp: create_tip_def get_unpositioned_tip_def Let_def split: sum.splits)

lemma reset_endpoints_frame:
  assumes "reset_endpoints_based_on_tip K self t at_start = Inr self2"
  shows "submobjects self2 = submobjects self \<and> tip self2 = tip self
     \<and> start_tip self2 = start_tip self \<and> next_ident self2 = next_ident self"
  using assms
  by (auto simp: reset_endpoints_based_on_tip_def put_start_and_end_on_def
      split: sum.splits if_splits)

lemma add_tip_result:
  assumes "add_tip K tlen at_start self = Inr self1"
  shows "\<exists>t. fst t = next_ident self
      \<and> submobjects self1 = list_update_py (submobjects self) t
      \<and> (if at_start then start_tip self1 = Some t \<and> tip self1 = tip self
          else tip self1 = Some t \<and> start_tip self1 = start_tip self)
      \<and> next_ident self1 = Suc (next_ident self)"
proof -
  from assms obtain t s1 s2 where
    c: "create_tip K self tlen at_start = Inr (t, s1)" and
    r: "reset_endpoints_based_on_tip K s1 t at_start = Inr s2" and
    e: "self1 = add (asign_tip_attr s2 t at_start) t"
    by (auto simp: add_tip_def split: sum.splits)
  from create_tip_result [OF c] have t: "fst t = next_ident self"
    and s1: "s1 = self\<lparr>next_ident := Suc (next_ident self)\<rparr>" by auto
  from reset_endpoints_frame [OF r] s1 have
    "submobjects s2 = submobjects self" "tip s2 = tip self"
    "start_tip s2 = start_tip self" "next_ident s2 = Suc (next_ident self)"
    by auto
  then show ?thesis using t e
    by (intro exI [of _ t]) (auto simp: add_def asign_tip_attr_def)
qed

lemma pop_tips_result:
  assumes d: "distinct (submobjects self)"
    and p: "pop_tips K self = Inr (popped, self')"
  shows "\<not> has_tip self' \<and> \<not> has_start_tip self'
     \<and> tip self' = tip self \<and> start_tip self' = start_tip self"
proof -
  from p obtain s e where se: "get_start_and_end self = Inr (s, e)"
    by (auto simp: pop_tips_def split: sum.splits)
  obtain res1 s1 where r1:
    "(case tip self of
        Some t \<Rightarrow> if has_tip self then (list_update_py [] t, remove self t) else ([], self)
      | None \<Rightarrow> ([], self)) = (res1, s1)"
    by (rule prod.exhaust)
  obtain res2 s2 where r2:
    "(case start_tip s1 of
        Some t \<Rightarrow> if has_start_tip s1 then (list_update_py res1 t, remove s1 t) else (res1, s1)
      | None \<Rightarrow> (res1, s1)) = (res2, s2)"
    by (rule prod.exhaust)
  have self': "self' = put_start_and_end_on K s2 s e"
    using p se r1 r2 by (simp add: pop_tips_def)
  have s1_attr: "tip s1 = tip self" "start_tip s1 = start_tip self"
    using r1 by (auto simp: remove_def split: option.splits if_splits)
  have s1_sub: "set (submobjects s1) \<subseteq> set (submobjects self)"
    using r1
    by (auto simp: remove_def split: option.splits if_splits
        dest: subsetD [OF set_remove1_subset])
  have s1_d: "distinct (submobjects s1)"
    using r1 d by (auto simp: remove_def split: option.splits if_splits)
  have s1_tip: "\<not> has_tip s1"
    using r1 d
    by (auto simp: remove_def has_tip_def contains_def split: option.splits if_splits)
  have s2_attr: "tip s2 = tip s1" "start_tip s2 = start_tip s1"
    using r2 by (auto simp: remove_def split: option.splits if_splits)
  have s2_sub: "set (submobjects s2) \<subseteq> set (submobjects s1)"
    using r2
    by (auto simp: remove_def split: option.splits if_splits
        dest: subsetD [OF set_remove1_subset])
  have s2_start: "\<not> has_start_tip s2"
    using r2 s1_d
    by (auto simp: remove_def has_start_tip_def contains_def split: option.splits if_splits)
  have s2_tip: "\<not> has_tip s2"
    using s1_tip s2_sub s2_attr
    by (auto simp: has_tip_def contains_def split: option.splits)
  show ?thesis
    using s2_tip s2_start s2_attr s1_attr
    by (auto simp: self' put_start_and_end_on_def has_tip_def has_start_tip_def contains_def
        split: option.splits)
qed

lemma pop_tips_popped:
  assumes d: "distinct (submobjects self)"
    and p: "pop_tips K self = Inr (popped, self')"
  shows "set popped = {x \<in> set (submobjects self). tip self = Some x \<or> start_tip self = Some x}"
  using d p
  by (auto simp: pop_tips_def Let_def has_tip_def has_start_tip_def contains_def remove_def
      list_update_py_def split: sum.splits option.splits if_splits prod.splits)

lemma get_tip_not_found:
  "(get_tip m = Inl TipNotFound) = (tip m = None \<and> start_tip m = None)"
  by (auto simp: get_tip_def get_tips_def list_update_py_def Let_def
      split: option.splits list.splits)

lemma for_each_snoc:
  "for_each f (xs @ [x]) s = (case for_each f xs s of Inl e \<Rightarrow> Inl e | Inr s' \<Rightarrow> f x s')"
  by (induction xs arbitrary: s) (auto split: sum.splits)

lemma add_tip_fresh:
  assumes f: "\<forall>x \<in> set (submobjects self). fst x < next_ident self"
    and a: "add_tip K tlen at_start self = Inr self1"
  shows "\<exists>t. fst t = next_ident self
       \<and> submobjects self1 = submobjects self @ [t]
       \<and> (if at_start then start_tip self1 = Some t \<and> tip self1 = tip self
           else tip self1 = Some t \<and> start_tip self1 = start_tip self)
       \<and> next_ident self1 = Suc (next_ident self)
       \<and> (\<forall>x \<in> set (submobjects self1). fst x < next_ident self1)"
proof -
  from add_tip_result [OF a] obtain t where t:
    "fst t = next_ident self"
    "submobjects self1 = list_update_py (submobjects self) t"
    "if at_start then start_tip self1 = Some t \<and> tip self1 = tip self
     else tip self1 = Some t \<and> start_tip self1 = start_tip self"
    "next_ident self1 = Suc (next_ident self)"
    by blast
  have "filter (\<lambda>e. e \<noteq> t) (submobjects self) = submobjects self"
    using f t(1) by (auto simp: filter_id_conv)
  then have sub: "submobjects self1 = submobjects self @ [t]"
    using t(2) by (simp add: list_update_py_def)
  have "\<forall>x \<in> set (submobjects self1). fst x < next_ident self1"
    using f sub t(1) t(4) by (auto simp: less_Suc_eq)
  then show ?thesis
    using sub t(1) t(3) t(4) by blast
qed

lemma add_tips_invariant:
  assumes f: "\<forall>x \<in> set (submobjects self). fst x < next_ident self"
    and r: "for_each (\<lambda>(tlen, at_start). add_tip K tlen at_start) calls self = Inr self'"
  shows "\<exists>ts. submobjects self' = submobjects self @ ts
       \<and> map fst ts = [next_ident self ..< next_ident self + length calls]
       \<and> tip self' = (if filter (\<lambda>(t, c). \<not> snd c) (zip ts calls) = [] then tip self
                       else Some (fst (last (filter (\<lambda>(t, c). \<not> snd c) (zip ts calls)))))
       \<and> start_tip self' = (if filter (\<lambda>(t, c). snd c) (zip ts calls) = [] then start_tip self
                       else Some (fst (last (filter (\<lambda>(t, c). snd c) (zip ts calls)))))
       \<and> next_ident self' = next_ident self + length calls
       \<and> (\<forall>x \<in> set (submobjects self'). fst x < next_ident self')"
  using r
proof (induction calls arbitrary: self' rule: rev_induct)
  case Nil
  then show ?case using f by simp
next
  case (snoc c calls)
  obtain tlen at_start where c: "c = (tlen, at_start)" by (cases c) auto
  from snoc.prems obtain s1 where
    s1: "for_each (\<lambda>(tlen, at_start). add_tip K tlen at_start) calls self = Inr s1" and
    st: "add_tip K tlen at_start s1 = Inr self'"
    by (auto simp: for_each_snoc c split: sum.splits)
  from snoc.IH [OF s1] obtain ts where ts:
    "submobjects s1 = submobjects self @ ts"
    "map fst ts = [next_ident self ..< next_ident self + length calls]"
    "tip s1 = (if filter (\<lambda>(t, c). \<not> snd c) (zip ts calls) = [] then tip self
                       else Some (fst (last (filter (\<lambda>(t, c). \<not> snd c) (zip ts calls)))))"
    "start_tip s1 = (if filter (\<lambda>(t, c). snd c) (zip ts calls) = [] then start_tip self
                       else Some (fst (last (filter (\<lambda>(t, c). snd c) (zip ts calls)))))"
    "next_ident s1 = next_ident self + length calls"
    "\<forall>x \<in> set (submobjects s1). fst x < next_ident s1"
    by blast
  from add_tip_fresh [OF ts(6) st] obtain t where t:
    "fst t = next_ident s1"
    "submobjects self' = submobjects s1 @ [t]"
    "if at_start then start_tip self' = Some t \<and> tip self' = tip s1
     else tip self' = Some t \<and> start_tip self' = start_tip s1"
    "next_ident self' = Suc (next_ident s1)"
    "\<forall>x \<in> set (submobjects self'). fst x < next_ident self'"
    by blast
  have len: "length ts = length calls"
    using ts(2) by (metis length_map length_upt add_diff_cancel_left')
  have z: "zip (ts @ [t]) (calls @ [c]) = zip ts calls @ [(t, c)]"
    using len by simp
  have 1: "submobjects self' = submobjects self @ (ts @ [t])"
    using ts(1) t(2) by simp
  have 2: "map fst (ts @ [t]) = [next_ident self ..< next_ident self + length (calls @ [c])]"
    using ts(2) ts(5) t(1) by simp
  have 3: "tip self' = (if filter (\<lambda>(t, c). \<not> snd c) (zip (ts @ [t]) (calls @ [c])) = [] then tip self
       else Some (fst (last (filter (\<lambda>(t, c). \<not> snd c) (zip (ts @ [t]) (calls @ [c]))))))"
    unfolding z using t(3) ts(3) by (simp add: c)
  have 4: "start_tip self' = (if filter (\<lambda>(t, c). snd c) (zip (ts @ [t]) (calls @ [c])) = [] then start_tip self
       else Some (fst (last (filter (\<lambda>(t, c). snd c) (zip (ts @ [t]) (calls @ [c]))))))"
    unfolding z using t(3) ts(4) by (simp add: c)
  have 5: "next_ident self' = next_ident self + length (calls @ [c])"
    using t(4) ts(5) by simp
  show ?case
    using 1 2 3 4 5 t(5) by blast
qed

text \<open>
  Claim C4 (as amended). Take a path whose children have identities below the next
  fresh one, and any sequence of \<^verbatim>\<open>add_tip\<close> calls that returns. Every call adds one
  new child at the end of the list of children and removes none, so all the tips ever
  added are children of the path, in the order of the calls. The attribute \<^verbatim>\<open>tip\<close> is
  the tip added by the last call at the end, and is what it was when there was no such
  call; the attribute \<^verbatim>\<open>start_tip\<close> is the tip added by the last call at the start,
  and is what it was when there was no such call. In particular the attribute of the
  end named by the last call is the last child. Re-adding a tip at an end replaces the
  attribute, not the child, and leaves the attribute of the other end alone.
\<close>

theorem add_tip_keeps_children:
  assumes "\<forall>x \<in> set (submobjects self). fst x < next_ident self"
    and "for_each (\<lambda>(tlen, at_start). add_tip K tlen at_start) calls self = Inr self'"
  shows "\<exists>ts. submobjects self' = submobjects self @ ts
       \<and> map fst ts = [next_ident self ..< next_ident self + length calls]
       \<and> tip self' = (if filter (\<lambda>(t, c). \<not> snd c) (zip ts calls) = [] then tip self
                       else Some (fst (last (filter (\<lambda>(t, c). \<not> snd c) (zip ts calls)))))
       \<and> start_tip self' = (if filter (\<lambda>(t, c). snd c) (zip ts calls) = [] then start_tip self
                       else Some (fst (last (filter (\<lambda>(t, c). snd c) (zip ts calls)))))
       \<and> length (submobjects self') = length (submobjects self) + length calls
       \<and> set (submobjects self) \<subseteq> set (submobjects self')
       \<and> (calls \<noteq> [] \<longrightarrow>
            (if snd (last calls) then start_tip self' else tip self') = Some (last (submobjects self')))"
proof -
  from add_tips_invariant [OF assms] obtain ts where ts:
    "submobjects self' = submobjects self @ ts"
    "map fst ts = [next_ident self ..< next_ident self + length calls]"
    "tip self' = (if filter (\<lambda>(t, c). \<not> snd c) (zip ts calls) = [] then tip self
                       else Some (fst (last (filter (\<lambda>(t, c). \<not> snd c) (zip ts calls)))))"
    "start_tip self' = (if filter (\<lambda>(t, c). snd c) (zip ts calls) = [] then start_tip self
                       else Some (fst (last (filter (\<lambda>(t, c). snd c) (zip ts calls)))))"
    by blast
  have len: "length ts = length calls"
    using ts(2) by (metis length_map length_upt add_diff_cancel_left')
  have 5: "length (submobjects self') = length (submobjects self) + length calls"
    using ts(1) len by simp
  have 6: "set (submobjects self) \<subseteq> set (submobjects self')"
    using ts(1) by auto
  have 7: "calls \<noteq> [] \<longrightarrow>
            (if snd (last calls) then start_tip self' else tip self') = Some (last (submobjects self'))"
  proof
    assume ne: "calls \<noteq> []"
    then obtain cs c where cs: "calls = cs @ [c]" by (metis rev_exhaust)
    with len obtain us t where us: "ts = us @ [t]" "length us = length cs"
      by (metis length_append_singleton length_Suc_conv_rev)
    have z: "zip ts calls = zip us cs @ [(t, c)]" using us cs by simp
    show "(if snd (last calls) then start_tip self' else tip self') = Some (last (submobjects self'))"
      using ts(1,3,4) unfolding z by (simp add: cs us(1))
  qed
  show ?thesis
    using ts 5 6 7 by blast
qed

text \<open>
  Three calls on the line from \<open>LEFT\<close> to \<open>RIGHT\<close>, at the end, the start and the
  end again: the line has three tip children, \<^verbatim>\<open>tip\<close> is the last of them and
  \<^verbatim>\<open>start_tip\<close> the second.
\<close>

theorem add_tip_keeps_children_witness:
  "\<exists>s. for_each (\<lambda>(tlen, at_start). add_tip example_collab tlen at_start)
          [(None, False), (None, True), (None, False)]
          \<lparr>points = set_points_as_corners [LEFT, RIGHT], tip_length = DEFAULT_ARROW_TIP_LENGTH,
           tip = None, start_tip = None, submobjects = [], next_ident = 0\<rparr> = Inr s
       \<and> map fst (submobjects s) = [0, 1, 2]
       \<and> tip s = Some (submobjects s ! 2)
       \<and> start_tip s = Some (submobjects s ! 1)"
proof -
  let ?line = "\<lparr>points = set_points_as_corners [LEFT, RIGHT], tip_length = DEFAULT_ARROW_TIP_LENGTH,
           tip = None, start_tip = None, submobjects = [], next_ident = 0\<rparr>"
  have "\<exists>s. for_each (\<lambda>(tlen, at_start). add_tip example_collab tlen at_start)
          [(None, False), (None, True), (None, False)] ?line = Inr s"
    by (simp add: add_tip_def create_tip_def get_unpositioned_tip_def position_tip_def
        reset_endpoints_based_on_tip_def get_length_def get_start_and_end_def get_start_def
        get_end_def has_tip_def has_start_tip_def contains_def add_def asign_tip_attr_def
        list_update_py_def put_start_and_end_on_def example_collab_def
        ArrowTip_get_angle_def ArrowTip_get_vector_def ArrowTip_get_tip_point_def
        ArrowTip_get_base_def get_last_handle_def get_first_handle_def py_index_def
        VMobject_get_start_def VMobject_get_end_def set_points_as_corners_def interpolate_def
        get_default_tip_length_def DEFAULT_ARROW_TIP_LENGTH_def shift_def
        LEFT_def RIGHT_def ORIGIN_def Let_def)
  then obtain s where s: "for_each (\<lambda>(tlen, at_start). add_tip example_collab tlen at_start)
          [(None, False), (None, True), (None, False)] ?line = Inr s" ..
  have f: "\<forall>x \<in> set (submobjects ?line). fst x < next_ident ?line" by simp
  show ?thesis
    using add_tip_keeps_children [OF f s] s
    by (auto simp: upt_rec_numeral)
qed

text \<open>
  Claim C4 as stated says that the tip attached first is no longer a child once a tip is
  added at the same end again. Two calls of \<^verbatim>\<open>add_tip()\<close> on the line from \<open>LEFT\<close> to
  \<open>RIGHT\<close>: the attribute \<^verbatim>\<open>tip\<close> no longer names the first tip, which is still one of
  the two children.
\<close>

theorem add_tip_twice_counterexample:
  "\<exists>s1 s2 t1.
      add_tip example_collab None False
        \<lparr>points = set_points_as_corners [LEFT, RIGHT], tip_length = DEFAULT_ARROW_TIP_LENGTH,
         tip = None, start_tip = None, submobjects = [], next_ident = 0\<rparr> = Inr s1
    \<and> tip s1 = Some t1
    \<and> add_tip example_collab None False s1 = Inr s2
    \<and> tip s2 \<noteq> Some t1
    \<and> t1 \<in> set (submobjects s2)
    \<and> length (submobjects s2) = 2"
  by (simp add: add_tip_def create_tip_def get_unpositioned_tip_def position_tip_def
        reset_endpoints_based_on_tip_def get_length_def get_start_and_end_def get_start_def
        get_end_def has_tip_def has_start_tip_def contains_def add_def asign_tip_attr_def
        list_update_py_def put_start_and_end_on_def example_collab_def
        ArrowTip_get_angle_def ArrowTip_get_vector_def ArrowTip_get_tip_point_def
        ArrowTip_get_base_def get_last_handle_def get_first_handle_def py_index_def
        VMobject_get_start_def VMobject_get_end_def set_points_as_corners_def interpolate_def
        get_default_tip_length_def DEFAULT_ARROW_TIP_LENGTH_def shift_def
        LEFT_def RIGHT_def ORIGIN_def Let_def)


lemma get_tips_both:
  "get_tips m =
     (case (tip m, start_tip m) of
        (None, None) \<Rightarrow> []
      | (Some e, None) \<Rightarrow> [e]
      | (None, Some st) \<Rightarrow> [st]
      | (Some e, Some st) \<Rightarrow> if e = st then [e] else [e, st])"
  by (simp add: get_tips_def list_update_py_def split: option.splits)

lemma get_tips_attr:
  assumes "tip m = Some t \<or> start_tip m = Some t"
  shows "t \<in> set (get_tips m)"
  using assms unfolding get_tips_both
  by (cases "tip m"; cases "start_tip m") auto

lemma get_tip_first:
  assumes "tip m = Some t"
  shows "get_tip m = Inr t"
proof (cases "start_tip m")
  case None
  then have "get_tips m = [t]"
    using assms by (simp add: get_tips_def list_update_py_def)
  then show ?thesis by (simp add: get_tip_def)
next
  case (Some st)
  then have "get_tips m = (if t = st then [t] else [t, st])"
    using assms by (simp add: get_tips_def list_update_py_def)
  then show ?thesis by (simp add: get_tip_def)
qed

lemma get_tip_start_only:
  assumes "tip m = None" and "start_tip m = Some t"
  shows "get_tip m = Inr t"
proof -
  have "get_tips m = [t]"
    using assms by (simp add: get_tips_def list_update_py_def)
  then show ?thesis by (simp add: get_tip_def)
qed

text \<open>
  Claim C10. After \<^verbatim>\<open>add_tip\<close> and then \<^verbatim>\<open>pop_tips\<close> on a path whose children are
  distinct objects, \<^verbatim>\<open>has_tip()\<close> and \<^verbatim>\<open>has_start_tip()\<close> are false; the attribute
  still names the tip that was added and has been popped, \<^verbatim>\<open>get_tips()\<close> contains it,
  and \<^verbatim>\<open>get_tip()\<close> returns a tip (the one named by \<^verbatim>\<open>tip\<close>, else the added start
  tip) and does not raise. On any path, \<^verbatim>\<open>get_tip()\<close> raises exactly when neither attribute has been
  assigned.
\<close>

theorem pop_tips_keeps_attributes:
  assumes "distinct (submobjects self)"
    and "add_tip K tlen at_start self = Inr self1"
    and "pop_tips K self1 = Inr (popped, self2)"
  shows "\<not> has_tip self2 \<and> \<not> has_start_tip self2
     \<and> (\<exists>t. fst t = next_ident self
           \<and> (if at_start then start_tip self2 else tip self2) = Some t
           \<and> t \<in> set popped
           \<and> t \<in> set (get_tips self2)
           \<and> get_tip self2 = Inr (case tip self2 of Some e \<Rightarrow> e | None \<Rightarrow> t))
     \<and> ((get_tip m = Inl TipNotFound) = (tip m = None \<and> start_tip m = None))"
proof -
  from add_tip_result [OF assms(2)] obtain t where t:
    "fst t = next_ident self"
    "submobjects self1 = list_update_py (submobjects self) t"
    "(if at_start then start_tip self1 else tip self1) = Some t"
    by (auto split: if_splits)
  have d1: "distinct (submobjects self1)"
    using assms(1) t(2) by (auto simp: list_update_py_def)
  from pop_tips_result [OF d1 assms(3)] have p:
    "\<not> has_tip self2" "\<not> has_start_tip self2"
    "tip self2 = tip self1" "start_tip self2 = start_tip self1"
    by auto
  have attr: "(if at_start then start_tip self2 else tip self2) = Some t"
    using t(3) p(3,4) by (auto split: if_splits)
  have "t \<in> set (submobjects self1)"
    using t(2) by (simp add: list_update_py_def)
  then have pop: "t \<in> set popped"
    using pop_tips_popped [OF d1 assms(3)] t(3) by (auto split: if_splits)
  from attr have mem: "t \<in> set (get_tips self2)"
    using get_tips_attr [of self2 t] by (auto split: if_splits)
  have gt: "get_tip self2 = Inr (case tip self2 of Some e \<Rightarrow> e | None \<Rightarrow> t)"
  proof (cases "tip self2")
    case None
    then have "start_tip self2 = Some t" using attr by (auto split: if_splits)
    then show ?thesis using None get_tip_start_only by simp
  next
    case (Some e)
    then show ?thesis using get_tip_first by simp
  qed
  show ?thesis
    using p(1,2) t(1) attr pop mem gt get_tip_not_found by blast
qed

text \<open>
  On the line from \<open>LEFT\<close> to \<open>RIGHT\<close>: after \<^verbatim>\<open>add_tip()\<close> the line has a tip;
  after \<^verbatim>\<open>pop_tips()\<close> it has none, and \<^verbatim>\<open>get_tip()\<close> still returns the popped tip.
\<close>

theorem pop_tips_keeps_attributes_witness:
  "\<exists>s1 popped s2.
      add_tip example_collab None False
        \<lparr>points = set_points_as_corners [LEFT, RIGHT], tip_length = DEFAULT_ARROW_TIP_LENGTH,
         tip = None, start_tip = None, submobjects = [], next_ident = 0\<rparr> = Inr s1
    \<and> has_tip s1
    \<and> pop_tips example_collab s1 = Inr (popped, s2)
    \<and> \<not> has_tip s2 \<and> \<not> has_start_tip s2
    \<and> set (get_tips s2) = set popped
    \<and> get_tip s2 = Inr (the (tip s1))"
proof -
  let ?line = "\<lparr>points = set_points_as_corners [LEFT, RIGHT], tip_length = DEFAULT_ARROW_TIP_LENGTH,
           tip = None, start_tip = None, submobjects = [], next_ident = 0\<rparr>"
  have "\<exists>s1 popped s2. add_tip example_collab None False ?line = Inr s1
      \<and> has_tip s1 \<and> pop_tips example_collab s1 = Inr (popped, s2)
      \<and> tip s2 = tip s1 \<and> set (get_tips s2) = set popped"
    by (simp add: add_tip_def create_tip_def get_unpositioned_tip_def position_tip_def
        reset_endpoints_based_on_tip_def get_length_def get_start_and_end_def get_start_def
        get_end_def has_tip_def has_start_tip_def contains_def add_def asign_tip_attr_def
        list_update_py_def put_start_and_end_on_def example_collab_def
        ArrowTip_get_angle_def ArrowTip_get_vector_def ArrowTip_get_tip_point_def
        ArrowTip_get_base_def get_last_handle_def get_first_handle_def py_index_def
        VMobject_get_start_def VMobject_get_end_def set_points_as_corners_def interpolate_def
        get_default_tip_length_def DEFAULT_ARROW_TIP_LENGTH_def shift_def
        pop_tips_def remove_def get_tips_def
        LEFT_def RIGHT_def ORIGIN_def Let_def)
  then obtain s1 popped s2 where
    a: "add_tip example_collab None False ?line = Inr s1" and
    h: "has_tip s1" and
    p: "pop_tips example_collab s1 = Inr (popped, s2)" and
    e: "tip s2 = tip s1" "set (get_tips s2) = set popped"
    by blast
  have d: "distinct (submobjects ?line)" by simp
  from pop_tips_keeps_attributes [OF d a p, of s2] h e
  have "\<not> has_tip s2 \<and> \<not> has_start_tip s2 \<and> get_tip s2 = Inr (the (tip s1))"
    by (auto simp: has_tip_def split: option.splits)
  then show ?thesis using a h p e by blast
qed

text \<open>
  Claim C9. On a path whose length (the distance from its start to its end) is zero,
  \<^verbatim>\<open>reset_endpoints_based_on_tip\<close> returns the path as it is. On a line whose measured
  length is zero, \<^verbatim>\<open>account_for_buff\<close> leaves the points as they are: for a buffer
  that is not negative it returns before trimming; for a negative buffer the proportions
  are infinite, and the points stay when the partial-path operation returns the whole
  path for that range.
\<close>

theorem zero_length_noop:
  "(get_length self = Inr 0 \<longrightarrow> reset_endpoints_based_on_tip K self t at_start = Inr self)
   \<and> (buff_length K l = Inr 0
        \<and> (0 \<le> buff l \<or> ext_pointwise_become_partial K (points l) NInf PInf = points l)
      \<longrightarrow> (\<exists>l'. account_for_buff K l = Inr l' \<and> points l' = points l))"
proof (intro conjI impI)
  assume "get_length self = Inr 0"
  then show "reset_endpoints_based_on_tip K self t at_start = Inr self"
    by (simp add: reset_endpoints_based_on_tip_def)
next
  assume a: "buff_length K l = Inr 0
        \<and> (0 \<le> buff l \<or> ext_pointwise_become_partial K (points l) NInf PInf = points l)"
  show "\<exists>l'. account_for_buff K l = Inr l' \<and> points l' = points l"
  proof (cases "0 \<le> buff l")
    case True
    then show ?thesis using a
      by (auto simp: account_for_buff_def buff_range_def)
  next
    case False
    then show ?thesis using a
      by (auto simp: account_for_buff_def buff_range_def np_div_def Let_def)
  qed
qed

text \<open>
  A line from the origin to the origin with buffer \<open>1/4\<close>: its length is zero, and both
  operations leave it as it is.
\<close>

theorem zero_length_noop_witness:
  "get_length \<lparr>points = set_points_as_corners [ORIGIN, ORIGIN],
        tip_length = DEFAULT_ARROW_TIP_LENGTH, tip = None, start_tip = None,
        submobjects = [], next_ident = 0, buff = 1 / 4, path_arc = Some 0\<rparr> = Inr 0
   \<and> reset_endpoints_based_on_tip example_collab
        \<lparr>points = set_points_as_corners [ORIGIN, ORIGIN],
         tip_length = DEFAULT_ARROW_TIP_LENGTH, tip = None, start_tip = None,
         submobjects = [], next_ident = 0, buff = 1 / 4, path_arc = Some 0\<rparr>
        (0, [ORIGIN, LEFT]) False
      = Inr \<lparr>points = set_points_as_corners [ORIGIN, ORIGIN],
         tip_length = DEFAULT_ARROW_TIP_LENGTH, tip = None, start_tip = None,
         submobjects = [], next_ident = 0, buff = 1 / 4, path_arc = Some 0\<rparr>
   \<and> buff_length example_collab
        \<lparr>points = set_points_as_corners [ORIGIN, ORIGIN],
         tip_length = DEFAULT_ARROW_TIP_LENGTH, tip = None, start_tip = None,
         submobjects = [], next_ident = 0, buff = 1 / 4, path_arc = Some 0\<rparr> = Inr 0
   \<and> (\<exists>l'. account_for_buff example_collab
        \<lparr>points = set_points_as_corners [ORIGIN, ORIGIN],
         tip_length = DEFAULT_ARROW_TIP_LENGTH, tip = None, start_tip = None,
         submobjects = [], next_ident = 0, buff = 1 / 4, path_arc = Some 0\<rparr> = Inr l'
        \<and> points l' = set_points_as_corners [ORIGIN, ORIGIN])"
proof -
  let ?z = "\<lparr>points = set_points_as_corners [ORIGIN, ORIGIN],
         tip_length = DEFAULT_ARROW_TIP_LENGTH, tip = None, start_tip = None,
         submobjects = [], next_ident = 0, buff = 1 / 4, path_arc = Some (0::real)\<rparr>"
  have g: "get_length ?z = Inr 0"
    by (simp add: get_length_def get_start_and_end_def get_start_def get_end_def
        has_tip_def has_start_tip_def VMobject_get_start_def VMobject_get_end_def
        set_points_as_corners_def interpolate_def ORIGIN_def)
  have b: "buff_length example_collab ?z = Inr 0"
    using g by (simp add: buff_length_def)
  show ?thesis
    using g b zero_length_noop [of ?z example_collab "(0, [ORIGIN, LEFT])" False ?z]
    by simp
qed

text \<open>
  Claim C3 (as amended). For a line with buffer \<open>buff > 0\<close> and measured length \<open>L\<close>,
  trimming is skipped when \<open>L < 2 buff\<close>, and only then; otherwise, also when
  \<open>2 buff = L\<close>, the points become the partial path from the proportion \<open>buff / L\<close>
  to \<open>1 - buff / L\<close>.
\<close>

theorem account_for_buff_trims:
  assumes "0 < buff self" and "buff_length K self = Inr L"
  shows "account_for_buff K self =
     Inr (if L < 2 * buff self then self
          else self\<lparr>points := ext_pointwise_become_partial K (points self)
                         (Fin (buff self / L)) (Fin (1 - buff self / L))\<rparr>)"
  using assms by (auto simp: account_for_buff_def buff_range_def np_div_def Let_def)

text \<open>
  The line from \<open>LEFT\<close> to \<open>RIGHT\<close> with buffer \<open>1/4\<close>: its length is 2, and the
  partial path from \<open>1/8\<close> to \<open>7/8\<close> is taken.
\<close>

theorem account_for_buff_trims_witness:
  "account_for_buff example_collab
     \<lparr>points = set_points_as_corners [LEFT, RIGHT],
      tip_length = DEFAULT_ARROW_TIP_LENGTH, tip = None, start_tip = None,
      submobjects = [], next_ident = 0, buff = 1 / 4, path_arc = Some 0\<rparr>
   = Inr \<lparr>points = ext_pointwise_become_partial example_collab
              (set_points_as_corners [LEFT, RIGHT]) (Fin (1 / 8)) (Fin (7 / 8)),
      tip_length = DEFAULT_ARROW_TIP_LENGTH, tip = None, start_tip = None,
      submobjects = [], next_ident = 0, buff = 1 / 4, path_arc = Some 0\<rparr>"
proof -
  let ?l = "\<lparr>points = set_points_as_corners [LEFT, RIGHT],
      tip_length = DEFAULT_ARROW_TIP_LENGTH, tip = None, start_tip = None,
      submobjects = [], next_ident = 0, buff = 1 / 4, path_arc = Some (0::real)\<rparr>"
  have b: "0 < buff ?l" by simp
  have g: "buff_length example_collab ?l = Inr 2"
    by (simp add: buff_length_def get_length_def get_start_and_end_def get_start_def
        get_end_def has_tip_def has_start_tip_def VMobject_get_start_def VMobject_get_end_def
        set_points_as_corners_def interpolate_def LEFT_def RIGHT_def)
  show ?thesis
    using account_for_buff_trims [OF b g] by simp
qed

text \<open>
  Claim C3 as stated skips the trimming whenever \<open>2 buff \<ge> L\<close>. For \<open>buff = 1\<close> and
  \<open>L = 2\<close> the test \<^verbatim>\<open>length < 2 * self.buff\<close> is false, and the partial path from
  \<open>1/2\<close> to \<open>1/2\<close> is taken.
\<close>

theorem account_for_buff_equal_counterexample:
  "(2::real) \<le> 2 * 1 \<and> buff_range 2 1 = Some (Fin (1 / 2), Fin (1 / 2))"
  by (simp add: buff_range_def np_div_def Let_def)

subsection \<open>Arcs\<close>

lemma saah_length:
  "length hs = length as \<Longrightarrow> length ks = length as \<Longrightarrow> length bs = length as \<Longrightarrow>
   length (set_anchors_and_handles as hs ks bs) = 4 * length as"
proof (induction as arbitrary: hs ks bs)
  case Nil
  then show ?case by simp
next
  case (Cons a as)
  then obtain h hs' k ks' b bs' where "hs = h # hs'" "ks = k # ks'" "bs = b # bs'"
    by (metis length_Suc_conv)
  with Cons show ?case by simp
qed

lemma nth_after_four: "(a # h # k # b # xs) ! (m + 4) = xs ! m"
  by (simp add: eval_nat_numeral)

lemma saah_nth:
  "length hs = length as \<Longrightarrow> length ks = length as \<Longrightarrow> length bs = length as \<Longrightarrow>
   i < length as \<Longrightarrow>
   set_anchors_and_handles as hs ks bs ! (4 * i) = as ! i
   \<and> set_anchors_and_handles as hs ks bs ! (4 * i + 3) = bs ! i"
proof (induction as arbitrary: hs ks bs i)
  case Nil
  then show ?case by simp
next
  case (Cons a as)
  then obtain h hs' k ks' b bs' where e: "hs = h # hs'" "ks = k # ks'" "bs = b # bs'"
    by (metis length_Suc_conv)
  define xs where "xs = set_anchors_and_handles as hs' ks' bs'"
  have unfold: "set_anchors_and_handles (a # as) hs ks bs = a # h # k # b # xs"
    using e by (simp add: xs_def)
  show ?case
  proof (cases i)
    case 0
    then show ?thesis unfolding unfold using e by (simp add: eval_nat_numeral)
  next
    case (Suc j)
    have ih: "xs ! (4 * j) = as ! j \<and> xs ! (4 * j + 3) = bs' ! j"
      unfolding xs_def using Cons.IH [of hs' ks' bs' j] Cons.prems e Suc by simp
    have idx: "4 * i = 4 * j + 4" "4 * i + 3 = (4 * j + 3) + 4"
      using Suc by simp_all
    have "(a # h # k # b # xs) ! (4 * i) = xs ! (4 * j)"
      unfolding idx(1) by (rule nth_after_four)
    moreover have "(a # h # k # b # xs) ! (4 * i + 3) = xs ! (4 * j + 3)"
      unfolding idx(2) by (rule nth_after_four)
    ultimately show ?thesis
      unfolding unfold using ih e Suc by simp
  qed
qed

lemma linspace_length: "length (linspace a b n) = n"
  by (simp add: linspace_def)

lemma linspace_nth:
  "i < n \<Longrightarrow> linspace a (a + t) n ! i = a + real i * t / real (n - 1)"
  by (simp add: linspace_def)

lemma anchor_point: "vadd (smul (cos t) RIGHT) (smul (sin t) UP) = (cos t, sin t, 0)"
  by (simp add: RIGHT_def UP_def)

text \<open>
  Claim C5. For an arc with start angle \<open>a\<close>, sweep \<open>\<theta>\<close>, radius \<open>r\<close>, centre \<open>c\<close> and
  \<open>N \<ge> 2\<close> components, the constructor returns a path of \<open>N - 1\<close> cubic curves, that
  is \<open>4 (N - 1)\<close> control points. The curve number \<open>i\<close> starts at the circle point of
  the angle \<open>a + i \<theta> / (N - 1)\<close> and ends at that of \<open>a + (i + 1) \<theta> / (N - 1)\<close>, so
  the anchors are uniform in angle; the first anchor is \<open>c + r (cos a, sin a, 0)\<close> and
  the last is \<open>c + r (cos (a + \<theta>), sin (a + \<theta>), 0)\<close>.
\<close>

theorem arc_anchors:
  assumes "2 \<le> N"
  shows "\<exists>self. Arc_init a \<theta> r N c = Inr self
     \<and> length (points self) = 4 * (N - 1)
     \<and> (\<forall>i < N - 1.
           points self ! (4 * i)
             = vadd c (smul r (cos (a + real i * \<theta> / real (N - 1)),
                               sin (a + real i * \<theta> / real (N - 1)), 0))
         \<and> points self ! (4 * i + 3)
             = vadd c (smul r (cos (a + real (i + 1) * \<theta> / real (N - 1)),
                               sin (a + real (i + 1) * \<theta> / real (N - 1)), 0)))
     \<and> hd (points self) = vadd c (smul r (cos a, sin a, 0))
     \<and> last (points self) = vadd c (smul r (cos (a + \<theta>), sin (a + \<theta>), 0))"
proof -
  define angles where "angles = linspace a (a + \<theta>) N"
  define anchors where "anchors = map (\<lambda>t. vadd (smul (cos t) RIGHT) (smul (sin t) UP)) angles"
  define d_theta where "d_theta = \<theta> / (real N - 1)"
  define tangent_vectors where "tangent_vectors = map (\<lambda>(x, y, z). (- y, x, 0::real)) anchors"
  define handles1 where "handles1 = map (\<lambda>(a, t). vadd a (smul (d_theta / 3) t))
                          (zip (butlast anchors) (butlast tangent_vectors))"
  define handles2 where "handles2 = map (\<lambda>(a, t). vsub a (smul (d_theta / 3) t))
                          (zip (tl anchors) (tl tangent_vectors))"
  define pre where "pre = set_anchors_and_handles (butlast anchors) handles1 handles2 (tl anchors)"
  define pts where "pts = shift (scale_about_origin pre r) c"
  have N: "N \<noteq> 0" "N \<noteq> 1" "0 < N - 1" using assms by auto
  have pre_eq: "set_pre_positioned_points a \<theta> N = Inr pre"
    using N by (simp add: set_pre_positioned_points_def Let_def pre_def handles1_def handles2_def
        tangent_vectors_def d_theta_def anchors_def angles_def)
  have len_anchors: "length anchors = N"
    by (simp add: anchors_def angles_def linspace_length)
  have lens: "length handles1 = length (butlast anchors)"
    "length handles2 = length (butlast anchors)"
    "length (tl anchors) = length (butlast anchors)"
    by (simp_all add: handles1_def handles2_def tangent_vectors_def)
  have len_pre: "length pre = 4 * (N - 1)"
    unfolding pre_def using saah_length [OF lens] len_anchors by simp
  have anchor_nth: "anchors ! i = (cos (a + real i * \<theta> / real (N - 1)),
      sin (a + real i * \<theta> / real (N - 1)), 0)" if "i < N" for i
    using that by (simp add: anchors_def angles_def linspace_length linspace_nth anchor_point)
  have pre_nth: "pre ! (4 * i) = anchors ! i \<and> pre ! (4 * i + 3) = anchors ! (i + 1)"
    if "i < N - 1" for i
  proof -
    have i: "i < length (butlast anchors)" using that len_anchors by simp
    from saah_nth [OF lens i] show ?thesis
      unfolding pre_def using i by (simp add: nth_butlast nth_tl)
  qed
  have pts_nth: "pts ! j = vadd c (smul r (pre ! j))" if "j < length pre" for j
    using that by (cases "pre ! j"; cases c) (simp add: pts_def shift_def scale_about_origin_def)
  have len_pts: "length pts = 4 * (N - 1)"
    using len_pre by (simp add: pts_def shift_def scale_about_origin_def)
  have anchors_at: "pts ! (4 * i)
             = vadd c (smul r (cos (a + real i * \<theta> / real (N - 1)),
                               sin (a + real i * \<theta> / real (N - 1)), 0))
         \<and> pts ! (4 * i + 3)
             = vadd c (smul r (cos (a + real (i + 1) * \<theta> / real (N - 1)),
                               sin (a + real (i + 1) * \<theta> / real (N - 1)), 0))"
    if "i < N - 1" for i
  proof -
    have "4 * i < length pre" "4 * i + 3 < length pre" using that len_pre by auto
    then show ?thesis
      using pts_nth pre_nth [OF that] anchor_nth [of i] anchor_nth [of "i + 1"] that
      by simp
  qed
  have first: "hd pts = vadd c (smul r (cos a, sin a, 0))"
  proof -
    have "pts \<noteq> []" using len_pts N by auto
    then have "hd pts = pts ! (4 * 0)" by (simp add: hd_conv_nth)
    then show ?thesis using anchors_at [of 0] N by simp
  qed
  have final: "last pts = vadd c (smul r (cos (a + \<theta>), sin (a + \<theta>), 0))"
  proof -
    have "pts \<noteq> []" using len_pts N by auto
    then have "last pts = pts ! (length pts - 1)" by (simp add: last_conv_nth)
    also have "length pts - 1 = 4 * (N - 2) + 3" using len_pts assms by simp
    finally have "last pts = pts ! (4 * (N - 2) + 3)" .
    moreover have "real (N - 2 + 1) * \<theta> / real (N - 1) = \<theta>" using assms by simp
    ultimately show ?thesis using anchors_at [of "N - 2"] assms by simp
  qed
  have init: "Arc_init a \<theta> r N c =
      Inr \<lparr>points = pts, tip_length = DEFAULT_ARROW_TIP_LENGTH, tip = None,
               start_tip = None, submobjects = [], next_ident = 0,
               start_angle = a, angle = \<theta>, radius = Fin r,
               num_components = N, arc_center = c,
               failed_to_get_center = False, warnings = []\<rparr>"
    by (simp add: Arc_init_def generate_points_def pre_eq pts_def)
  show ?thesis
    unfolding init using len_pts anchors_at first final by simp
qed

text \<open>
  A quarter turn in one curve, with radius 2 about \<open>(1, 1, 0)\<close>: four control points,
  from \<open>(3, 1, 0)\<close> to \<open>(1, 3, 0)\<close>.
\<close>

theorem arc_anchors_witness:
  "\<exists>self. Arc_init 0 (pi / 2) 2 2 (1, 1, 0) = Inr self
     \<and> length (points self) = 4
     \<and> hd (points self) = (3, 1, 0)
     \<and> last (points self) = (1, 3, 0)"
proof -
  have "(2::nat) \<le> 2" by simp
  from arc_anchors [OF this, of 0 "pi / 2" 2 "(1, 1, 0)"]
  have "\<exists>self. Arc_init 0 (pi / 2) 2 2 (1, 1, 0) = Inr self
     \<and> length (points self) = 4
     \<and> points self ! 0 = (3, 1, 0)
     \<and> points self ! 3 = (1, 3, 0)
     \<and> hd (points self) = (3, 1, 0)
     \<and> last (points self) = (1, 3, 0)"
    by simp
  then show ?thesis by blast
qed

subsection \<open>ArcBetweenPoints with a radius\<close>

lemma Arc_init_not_invalid_radius: "Arc_init a t r N c \<noteq> Inl InvalidRadius"
  by (simp add: Arc_init_def generate_points_def set_pre_positioned_points_def Let_def
      split: sum.splits)

lemma Arc_init_angle:
  "2 \<le> N \<Longrightarrow> \<exists>self. Arc_init a t r N c = Inr self \<and> angle self = t"
  by (simp add: Arc_init_def generate_points_def set_pre_positioned_points_def Let_def)

lemma ArcBetweenPoints_angle_invalid:
  "(ArcBetweenPoints_angle start end angle_arg (Some r) = Inl InvalidRadius)
     = (\<bar>r\<bar> < get_norm (vsub start end) / 2)"
  by (auto simp: ArcBetweenPoints_angle_def Let_def)

lemma ArcBetweenPoints_angle_valid:
  assumes "\<not> \<bar>r\<bar> < get_norm (vsub start end) / 2" and "r \<noteq> 0"
  shows "ArcBetweenPoints_angle start end angle_arg (Some r)
     = Inr ((if r < 0 then - 2 else 2)
            * arccos ((\<bar>r\<bar> - (\<bar>r\<bar> - sqrt (\<bar>r\<bar>\<^sup>2 - (get_norm (vsub start end) / 2)\<^sup>2))) / \<bar>r\<bar>))"
  using assms by (auto simp: ArcBetweenPoints_angle_def Let_def)

lemma ArcBetweenPoints_init_invalid:
  "(ArcBetweenPoints_init K start end angle_arg (Some r) N c = Inl InvalidRadius)
     = (\<bar>r\<bar> < get_norm (vsub start end) / 2)"
proof (cases "ArcBetweenPoints_angle start end angle_arg (Some r)")
  case (Inl e)
  then show ?thesis
    using ArcBetweenPoints_angle_invalid [of start "end" angle_arg r]
    by (simp add: ArcBetweenPoints_init_def)
next
  case (Inr t)
  then have "\<not> \<bar>r\<bar> < get_norm (vsub start end) / 2"
    using ArcBetweenPoints_angle_invalid [of start "end" angle_arg r] by simp
  moreover have "ArcBetweenPoints_init K start end angle_arg (Some r) N c \<noteq> Inl InvalidRadius"
    using Inr Arc_init_not_invalid_radius [of 0 t r N c]
    by (auto simp: ArcBetweenPoints_init_def Let_def split: sum.splits)
  ultimately show ?thesis by simp
qed

text \<open>
  Claim C1 (as amended). With an explicit radius \<open>r\<close>, the constructor fails with the
  invalid-radius error exactly when \<open>|r|\<close> is smaller than half the distance between
  \<open>start\<close> and \<open>end\<close>, whatever the other arguments are: the test comes before any
  point is generated. Otherwise, for \<open>r \<noteq> 0\<close> and at least two components, the arc is
  built with the sweep angle \<open>sign * acos((|r| - arc_height) / |r|)\<close>, where \<open>sign\<close> is
  \<open>2\<close> for \<open>r \<ge> 0\<close> and \<open>-2\<close> for \<open>r < 0\<close>, and
  \<open>arc_height = |r| - sqrt(|r|\<^sup>2 - halfdist\<^sup>2)\<close>.
\<close>

theorem arc_between_points_radius:
  "((ArcBetweenPoints_init K start end angle_arg (Some r) N c = Inl InvalidRadius)
      = (\<bar>r\<bar> < get_norm (vsub start end) / 2))
   \<and> (\<not> \<bar>r\<bar> < get_norm (vsub start end) / 2 \<and> r \<noteq> 0 \<and> 2 \<le> N \<longrightarrow>
        (\<exists>self. ArcBetweenPoints_init K start end angle_arg (Some r) N c = Inr self
           \<and> angle self = (if r < 0 then - 2 else 2)
               * arccos ((\<bar>r\<bar> - (\<bar>r\<bar> - sqrt (\<bar>r\<bar>\<^sup>2 - (get_norm (vsub start end) / 2)\<^sup>2))) / \<bar>r\<bar>)))"
proof (intro conjI impI)
  show "(ArcBetweenPoints_init K start end angle_arg (Some r) N c = Inl InvalidRadius)
      = (\<bar>r\<bar> < get_norm (vsub start end) / 2)"
    by (rule ArcBetweenPoints_init_invalid)
next
  assume a: "\<not> \<bar>r\<bar> < get_norm (vsub start end) / 2 \<and> r \<noteq> 0 \<and> 2 \<le> N"
  define t where "t = (if r < 0 then - 2 else 2)
      * arccos ((\<bar>r\<bar> - (\<bar>r\<bar> - sqrt (\<bar>r\<bar>\<^sup>2 - (get_norm (vsub start end) / 2)\<^sup>2))) / \<bar>r\<bar>)"
  have ang: "ArcBetweenPoints_angle start end angle_arg (Some r) = Inr t"
    using a ArcBetweenPoints_angle_valid [of r start "end" angle_arg] by (simp add: t_def)
  from a Arc_init_angle [of N 0 t r c] obtain self0 where
    s0: "Arc_init 0 t r N c = Inr self0" "angle self0 = t" by auto
  have "\<exists>self. ArcBetweenPoints_init K start end angle_arg (Some r) N c = Inr self
      \<and> angle self = t"
    using ang s0 by (simp add: ArcBetweenPoints_init_def Let_def put_start_and_end_on_def)
  then show "\<exists>self. ArcBetweenPoints_init K start end angle_arg (Some r) N c = Inr self
           \<and> angle self = (if r < 0 then - 2 else 2)
               * arccos ((\<bar>r\<bar> - (\<bar>r\<bar> - sqrt (\<bar>r\<bar>\<^sup>2 - (get_norm (vsub start end) / 2)\<^sup>2))) / \<bar>r\<bar>)"
    by (simp add: t_def)
qed

text \<open>
  Between \<open>(0, 0, 0)\<close> and \<open>(2, 0, 0)\<close> half the distance is 1: the radius \<open>1/2\<close> is
  refused, the radius \<open>-1\<close> gives the sweep \<open>-2 acos 0\<close>, a half turn.
\<close>

theorem arc_between_points_radius_witness:
  "ArcBetweenPoints_init example_collab (0, 0, 0) (2, 0, 0) (TAU / 4) (Some (1 / 2)) 9 ORIGIN
      = Inl InvalidRadius
   \<and> (\<exists>self. ArcBetweenPoints_init example_collab (0, 0, 0) (2, 0, 0) (TAU / 4) (Some (- 1)) 9 ORIGIN
         = Inr self \<and> angle self = - 2 * arccos 0)"
proof -
  have h: "get_norm (vsub (0, 0, 0) (2, 0, 0)) / 2 = 1" by simp
  have 1: "ArcBetweenPoints_init example_collab (0, 0, 0) (2, 0, 0) (TAU / 4) (Some (1 / 2)) 9 ORIGIN
      = Inl InvalidRadius"
    using arc_between_points_radius [of example_collab "(0, 0, 0)" "(2, 0, 0)" "TAU / 4" "1 / 2" 9 ORIGIN]
    unfolding h by simp
  have 2: "\<exists>self. ArcBetweenPoints_init example_collab (0, 0, 0) (2, 0, 0) (TAU / 4) (Some (- 1)) 9 ORIGIN
         = Inr self \<and> angle self = - 2 * arccos 0"
    using arc_between_points_radius [of example_collab "(0, 0, 0)" "(2, 0, 0)" "TAU / 4" "- 1" 9 ORIGIN]
    unfolding h by simp
  show ?thesis using 1 2 by blast
qed

text \<open>
  Claim C1 as stated has the constructor fail exactly when \<open>r\<close> is smaller than half
  the distance. Between \<open>(0, 0, 0)\<close> and \<open>(2, 0, 0)\<close> the radius \<open>-5\<close> is smaller than 1,
  and the constructor does not fail with the invalid-radius error: a negative radius
  is negated first and bends the arc the other way.
\<close>

theorem arc_between_points_negative_radius_counterexample:
  "\<not> ((ArcBetweenPoints_init example_collab (0, 0, 0) (2, 0, 0) (TAU / 4) (Some (- 5)) 9 ORIGIN
          = Inl InvalidRadius)
       = (- 5 < get_norm (vsub (0, 0, 0) (2, 0, 0)) / 2))"
proof -
  have h: "get_norm (vsub (0, 0, 0) (2, 0, 0)) / 2 = 1" by simp
  show ?thesis
    unfolding ArcBetweenPoints_init_invalid h by simp
qed

subsection \<open>Centre recovery and corner rounding\<close>

lemma get_arc_center_failure:
  assumes "points self = a1 # h1 # h2 # a2 # rest"
    and "line_intersection (a1, vadd a1 (rotate_vector (vsub h1 a1) (TAU / 4)))
           (a2, vadd a2 (rotate_vector (vsub h2 a2) (TAU / 4))) = None"
  shows "get_arc_center warning self =
     Inr (ORIGIN,
          self\<lparr>failed_to_get_center := True,
               warnings := (if warning
                 then warnings self @ [''Can't find Arc center, using ORIGIN instead'']
                 else warnings self)\<rparr>)"
  using assms by (simp add: get_arc_center_def Let_def)

lemma get_arc_center_success:
  assumes "points self = a1 # h1 # h2 # a2 # rest"
    and "line_intersection (a1, vadd a1 (rotate_vector (vsub h1 a1) (TAU / 4)))
           (a2, vadd a2 (rotate_vector (vsub h2 a2) (TAU / 4))) = Some center"
  shows "get_arc_center warning self = Inr (center, self)"
  using assms by (simp add: get_arc_center_def Let_def)

lemma get_arc_center_four:
  assumes "get_arc_center warning self = Inr (center, self1)"
  shows "\<exists>a1 h1 h2 a2 rest. points self = a1 # h1 # h2 # a2 # rest"
  using assms by (auto simp: get_arc_center_def split: list.splits)

lemma infer_radius_result:
  assumes "\<not> failed_to_get_center self"
    and "ArcBetweenPoints_infer_radius start self = Inr self1"
  shows "\<exists>a1 h1 h2 a2 rest. points self1 = a1 # h1 # h2 # a2 # rest
     \<and> (case line_intersection (a1, vadd a1 (rotate_vector (vsub h1 a1) (TAU / 4)))
               (a2, vadd a2 (rotate_vector (vsub h2 a2) (TAU / 4))) of
          None \<Rightarrow> failed_to_get_center self1 \<and> radius self1 = PInf
                  \<and> warnings self1 = warnings self
        | Some center \<Rightarrow> \<not> failed_to_get_center self1
                  \<and> radius self1 = Fin (get_norm (vsub start center))
                  \<and> warnings self1 = warnings self)"
proof -
  from assms(2) obtain center s1 where g: "get_arc_center False self = Inr (center, s1)"
    by (auto simp: ArcBetweenPoints_infer_radius_def split: sum.splits)
  from get_arc_center_four [OF g] obtain a1 h1 h2 a2 rest where
    p: "points self = a1 # h1 # h2 # a2 # rest" by blast
  show ?thesis
  proof (cases "line_intersection (a1, vadd a1 (rotate_vector (vsub h1 a1) (TAU / 4)))
               (a2, vadd a2 (rotate_vector (vsub h2 a2) (TAU / 4)))")
    case None
    from get_arc_center_failure [OF p None, of False] assms(2)
    have "self1 = self\<lparr>failed_to_get_center := True, radius := PInf\<rparr>"
      by (simp add: ArcBetweenPoints_infer_radius_def)
    then show ?thesis using p None by simp
  next
    case (Some c)
    from get_arc_center_success [OF p Some, of False] assms(1,2)
    have "self1 = self\<lparr>radius := Fin (get_norm (vsub start c))\<rparr>"
      by (simp add: ArcBetweenPoints_infer_radius_def)
    then show ?thesis using p Some assms(1) by simp
  qed
qed

lemma Arc_init_fresh:
  assumes "Arc_init a t r N c = Inr self0"
  shows "\<not> failed_to_get_center self0 \<and> warnings self0 = []"
  using assms by (auto simp: Arc_init_def split: sum.splits)

lemma init_infer:
  assumes "ArcBetweenPoints_init K start end angle_arg None N c = Inr self"
  shows "\<exists>self0. \<not> failed_to_get_center self0 \<and> warnings self0 = []
     \<and> ArcBetweenPoints_infer_radius start self0 = Inr self"
proof -
  from assms obtain s0 where s0: "Arc_init 0 angle_arg 1 N c = Inr s0"
    by (auto simp: ArcBetweenPoints_init_def ArcBetweenPoints_angle_def split: sum.splits)
  define s2 where "s2 = put_start_and_end_on K
      (if angle_arg = 0 then s0\<lparr>points := set_points_as_corners [LEFT, RIGHT]\<rparr> else s0) start end"
  have "ArcBetweenPoints_infer_radius start s2 = Inr self"
    using assms s0 by (simp add: ArcBetweenPoints_init_def ArcBetweenPoints_angle_def Let_def s2_def)
  moreover have "\<not> failed_to_get_center s2 \<and> warnings s2 = []"
    using Arc_init_fresh [OF s0] by (simp add: s2_def put_start_and_end_on_def)
  ultimately show ?thesis by blast
qed

text \<open>
  Claim C8 (as amended). When the normals at the first two anchors have no unique
  intersection, \<^verbatim>\<open>get_arc_center\<close> returns the origin and sets the failure flag; it
  emits the warning when it is called with \<^verbatim>\<open>warning\<close> true (the default) and none when
  it is called with \<^verbatim>\<open>warning=False\<close>. \<^verbatim>\<open>ArcBetweenPoints\<close> without a radius calls it
  with \<^verbatim>\<open>warning=False\<close>: the arc it returns has the flag set and the radius
  \<^verbatim>\<open>math.inf\<close> when the normals of its first two anchors do not intersect, and
  otherwise the flag clear and the distance from \<open>start\<close> to their intersection as radius;
  in both cases no warning has been emitted.
\<close>

theorem arc_center_recovery:
  "(points self = a1 # h1 # h2 # a2 # rest
     \<and> line_intersection (a1, vadd a1 (rotate_vector (vsub h1 a1) (TAU / 4)))
           (a2, vadd a2 (rotate_vector (vsub h2 a2) (TAU / 4))) = None
    \<longrightarrow> get_arc_center warning self =
          Inr (ORIGIN,
               self\<lparr>failed_to_get_center := True,
                    warnings := (if warning
                      then warnings self @ [''Can't find Arc center, using ORIGIN instead'']
                      else warnings self)\<rparr>))
   \<and> (ArcBetweenPoints_init K start end angle_arg None N c = Inr arc1
    \<longrightarrow> (\<exists>b1 k1 k2 b2 more. points arc1 = b1 # k1 # k2 # b2 # more
          \<and> (case line_intersection (b1, vadd b1 (rotate_vector (vsub k1 b1) (TAU / 4)))
                    (b2, vadd b2 (rotate_vector (vsub k2 b2) (TAU / 4))) of
               None \<Rightarrow> failed_to_get_center arc1 \<and> radius arc1 = PInf \<and> warnings arc1 = []
             | Some center \<Rightarrow> \<not> failed_to_get_center arc1
                   \<and> radius arc1 = Fin (get_norm (vsub start center))
                   \<and> warnings arc1 = [])))"
proof (intro conjI impI)
  assume "points self = a1 # h1 # h2 # a2 # rest
     \<and> line_intersection (a1, vadd a1 (rotate_vector (vsub h1 a1) (TAU / 4)))
           (a2, vadd a2 (rotate_vector (vsub h2 a2) (TAU / 4))) = None"
  then show "get_arc_center warning self =
          Inr (ORIGIN,
               self\<lparr>failed_to_get_center := True,
                    warnings := (if warning
                      then warnings self @ [''Can't find Arc center, using ORIGIN instead'']
                      else warnings self)\<rparr>)"
    using get_arc_center_failure by blast
next
  assume "ArcBetweenPoints_init K start end angle_arg None N c = Inr arc1"
  from init_infer [OF this] obtain self0 where
    s0: "\<not> failed_to_get_center self0" "warnings self0 = []"
        "ArcBetweenPoints_infer_radius start self0 = Inr arc1"
    by blast
  from infer_radius_result [OF s0(1) s0(3)]
  show "\<exists>b1 k1 k2 b2 more. points arc1 = b1 # k1 # k2 # b2 # more
          \<and> (case line_intersection (b1, vadd b1 (rotate_vector (vsub k1 b1) (TAU / 4)))
                    (b2, vadd b2 (rotate_vector (vsub k2 b2) (TAU / 4))) of
               None \<Rightarrow> failed_to_get_center arc1 \<and> radius arc1 = PInf \<and> warnings arc1 = []
             | Some center \<Rightarrow> \<not> failed_to_get_center arc1
                   \<and> radius arc1 = Fin (get_norm (vsub start center))
                   \<and> warnings arc1 = [])"
    unfolding s0(2) .
qed

lemma collapsed_normals:
  "line_intersection (p, vadd p (rotate_vector (vsub p p) (TAU / 4)))
      (p, vadd p (rotate_vector (vsub p p) (TAU / 4))) = None"
  by (cases p) (simp add: line_intersection_def det2_def Let_def)

lemma collapsed_points:
  "map (\<lambda>p. q) (set_points_as_corners [LEFT, RIGHT]) = [q, q, q, q]"
  by (simp add: set_points_as_corners_def)

lemma collapsed_arc_init:
  "\<exists>self0. Arc_init 0 0 1 9 ORIGIN = Inr self0 \<and> \<not> failed_to_get_center self0
      \<and> warnings self0 = [] \<and>
     ArcBetweenPoints_init example_collab UR UR 0 None 9 ORIGIN
      = ArcBetweenPoints_infer_radius UR (self0\<lparr>points := [UR, UR, UR, UR]\<rparr>)"
  by (simp add: ArcBetweenPoints_init_def ArcBetweenPoints_angle_def Arc_init_def
      generate_points_def set_pre_positioned_points_def Let_def put_start_and_end_on_def
      example_collab_def collapsed_points)

lemma collapsed_arc_between_points:
  "\<exists>self. ArcBetweenPoints_init example_collab UR UR 0 None 9 ORIGIN = Inr self
      \<and> points self = [UR, UR, UR, UR]
      \<and> failed_to_get_center self \<and> radius self = PInf \<and> warnings self = []"
proof -
  from collapsed_arc_init obtain self0 where s0:
    "\<not> failed_to_get_center self0" "warnings self0 = []"
    "ArcBetweenPoints_init example_collab UR UR 0 None 9 ORIGIN
      = ArcBetweenPoints_infer_radius UR (self0\<lparr>points := [UR, UR, UR, UR]\<rparr>)"
    by blast
  let ?s = "self0\<lparr>points := [UR, UR, UR, UR]\<rparr>"
  have p: "points ?s = UR # UR # UR # UR # []"
    by simp
  from get_arc_center_failure [OF p collapsed_normals, of False]
  have "ArcBetweenPoints_infer_radius UR ?s
      = Inr (?s\<lparr>failed_to_get_center := True, radius := PInf\<rparr>)"
    by (simp add: ArcBetweenPoints_infer_radius_def)
  then show ?thesis using s0 by simp
qed

text \<open>
  Claim C8 as stated has a warning emitted whenever the centre is not found.
  \<^verbatim>\<open>ArcBetweenPoints(UR, UR, angle=0)\<close>, the arc that \<^verbatim>\<open>round_corners\<close> asks for at a
  corner when its radius is 0, starts where it ends: \<^verbatim>\<open>put_start_and_end_on\<close> scales the
  path by zero, its four points are the one point, both tangents are the zero vector and
  the two normal lines are not lines. The intersection fails, the flag is set and the
  radius is infinite, and no warning has been emitted.
\<close>

theorem arc_center_silent_counterexample:
  "\<exists>self. ArcBetweenPoints_init example_collab UR UR 0 None 9 ORIGIN = Inr self
      \<and> points self = [UR, UR, UR, UR]
      \<and> failed_to_get_center self \<and> radius self = PInf \<and> warnings self = []"
  by (rule collapsed_arc_between_points)

text \<open>
  The same arc from a point to itself: by the second half of the statement it has the
  flag set, an infinite radius and no warning; by the first half a later call of
  \<^verbatim>\<open>get_arc_center()\<close> on it returns the origin and warns.
\<close>

theorem arc_center_recovery_witness:
  "\<exists>arc1. ArcBetweenPoints_init example_collab UR UR 0 None 9 ORIGIN = Inr arc1
      \<and> failed_to_get_center arc1 \<and> radius arc1 = PInf \<and> warnings arc1 = []
      \<and> get_arc_center True arc1
          = Inr (ORIGIN, arc1\<lparr>failed_to_get_center := True,
                   warnings := [''Can't find Arc center, using ORIGIN instead'']\<rparr>)"
proof -
  from collapsed_arc_between_points obtain arc1 where a:
    "ArcBetweenPoints_init example_collab UR UR 0 None 9 ORIGIN = Inr arc1"
    "points arc1 = [UR, UR, UR, UR]"
    by blast
  have b: "failed_to_get_center arc1 \<and> radius arc1 = PInf \<and> warnings arc1 = []"
    using arc_center_recovery [of arc1 UR UR UR UR "[]" True example_collab UR UR 0 9 ORIGIN arc1]
      a collapsed_normals [of UR]
    by simp
  have c: "get_arc_center True arc1
          = Inr (ORIGIN, arc1\<lparr>failed_to_get_center := True,
                   warnings := [''Can't find Arc center, using ORIGIN instead'']\<rparr>)"
    using arc_center_recovery [of arc1 UR UR UR UR "[]" True example_collab UR UR 0 9 ORIGIN arc1]
      a collapsed_normals [of UR] b
    by simp
  show ?thesis using a(1) b c by blast
qed

text \<open>
  Claim C2, for which the code falls short. With radius 0 the first loop of
  \<^verbatim>\<open>round_corners\<close> asks, for every vertex, for an arc of angle 0 from the vertex to
  the vertex itself, whatever the collaborator's \<^verbatim>\<open>normalize\<close> and
  \<^verbatim>\<open>angle_between_vectors\<close> return: the path is rebuilt from one zero-length arc per
  vertex.
\<close>

theorem round_corners_zero_radius:
  "round_corners_arcs K 0 vs = map (\<lambda>(v1, v2, v3). (v2, v2, 0)) (adjacent_3_tuples vs)"
proof -
  have "round_corner_arc K 0 t = (case t of (v1, v2, v3) \<Rightarrow> (v2, v2, 0))" for t
  proof -
    obtain v1 v2 v3 where t: "t = (v1, v2, v3)" by (cases t) auto
    obtain x y z where v2: "v2 = (x, y, z)" by (cases v2) auto
    have z: "smul 0 w = (0, 0, 0)" for w by (cases w) simp
    show ?thesis
      by (simp add: round_corner_arc_def Let_def t v2 z)
  qed
  then show ?thesis
    by (simp add: round_corners_arcs_def)
qed

text \<open>
  The square of \<^verbatim>\<open>Rectangle\<close> with radius 0: four arcs, each from a corner to itself.
\<close>

theorem round_corners_zero_radius_square:
  "round_corners_arcs example_collab 0 [UL, UR, DR, DL]
     = [(UR, UR, 0), (DR, DR, 0), (DL, DL, 0), (UL, UL, 0)]"
  using round_corners_zero_radius [of example_collab "[UL, UR, DR, DL]"]
  by (simp add: adjacent_3_tuples_def rotated_def)

end
